theory Spec2Isabelle
  imports Main "HOL-Library.Sublist"
begin

section \<open>JavaScript strings\<close>

text \<open>
  A JavaScript string is a sequence of UTF-16 code units, and every string method the
  bubbles use (\<open>trim\<close>, \<open>startsWith\<close>, \<open>includes\<close>, \<open>replace\<close>, \<open>lastIndexOf\<close>,
  \<open>slice\<close>, a regular expression without the \<open>u\<close> flag) works on code units. A code
  unit is modelled by its number (below 65536 in every string of the program); the
  bubbles only compare code units, so nothing depends on their width. ASCII literals of
  the source are written \<open>js ''...''\<close>; the two glyphs of the source that are not
  ASCII are single code units.
\<close>

type_synonym jschar = nat
type_synonym jsstring = "jschar list"

definition js :: "string \<Rightarrow> jsstring" where
  "js s = map of_char s"

definition hourglass :: jschar where
  "hourglass = 0x23F3"

definition check_mark :: jschar where
  "check_mark = 0x2705"

text \<open>\<open>s.startsWith(p)\<close> and \<open>s.includes(p)\<close>.\<close>

fun str_startsWith :: "'a list \<Rightarrow> 'a list \<Rightarrow> bool" where
  "str_startsWith s [] = True"
| "str_startsWith [] (p # ps) = False"
| "str_startsWith (c # cs) (p # ps) = (c = p \<and> str_startsWith cs ps)"

fun str_includes :: "'a list \<Rightarrow> 'a list \<Rightarrow> bool" where
  "str_includes [] p = (p = [])"
| "str_includes (c # cs) p = (str_startsWith (c # cs) p \<or> str_includes cs p)"

text \<open>
  \<open>s.lastIndexOf(p)\<close>: the position of the last occurrence, \<open>-1\<close> when there is none.
\<close>

fun last_occurrence :: "'a list \<Rightarrow> 'a list \<Rightarrow> nat option" where
  "last_occurrence [] p = (if p = [] then Some 0 else None)"
| "last_occurrence (c # cs) p =
     (case last_occurrence cs p of
        Some i \<Rightarrow> Some (Suc i)
      | None \<Rightarrow> if str_startsWith (c # cs) p then Some 0 else None)"

definition str_lastIndexOf :: "'a list \<Rightarrow> 'a list \<Rightarrow> int" where
  "str_lastIndexOf s p = (case last_occurrence s p of None \<Rightarrow> - 1 | Some i \<Rightarrow> int i)"

text \<open>
  \<open>s.slice(a, b)\<close> and \<open>s.slice(a)\<close>: a negative index counts from the end, and both
  indices are clamped to the string.
\<close>

definition slice_index :: "'a list \<Rightarrow> int \<Rightarrow> nat" where
  "slice_index s a =
     (let n = int (length s) in nat (if a < 0 then max (n + a) 0 else min a n))"

definition str_slice :: "'a list \<Rightarrow> int \<Rightarrow> int \<Rightarrow> 'a list" where
  "str_slice s a b = take (slice_index s b - slice_index s a) (drop (slice_index s a) s)"

definition str_sliceFrom :: "'a list \<Rightarrow> int \<Rightarrow> 'a list" where
  "str_sliceFrom s a = drop (slice_index s a) s"

text \<open>
  \<open>s.replace(p, r)\<close> with a string pattern replaces the first occurrence only. The
  replacement strings of the source hold no \<open>$\<close>, so no replacement pattern of
  JavaScript is ever expanded and \<open>r\<close> is inserted as it is.
\<close>

fun str_replace :: "'a list \<Rightarrow> 'a list \<Rightarrow> 'a list \<Rightarrow> 'a list" where
  "str_replace [] p r = (if p = [] then r else [])"
| "str_replace (c # cs) p r =
     (if str_startsWith (c # cs) p then r @ drop (length p) (c # cs)
      else c # str_replace cs p r)"

text \<open>
  \<open>s.replace(/p/g, r)\<close> for a regular expression that is a literal, non-empty word
  \<open>p\<close>: a scan from the left that replaces each match and goes on behind it.
\<close>

function str_replaceAll :: "'a list \<Rightarrow> 'a list \<Rightarrow> 'a list \<Rightarrow> 'a list" where
  "str_replaceAll [] p r = []"
| "str_replaceAll (c # cs) p r =
     (if p \<noteq> [] \<and> str_startsWith (c # cs) p
      then r @ str_replaceAll (drop (length p) (c # cs)) p r
      else c # str_replaceAll cs p r)"
  by pat_completeness auto
termination
  by (relation "measure (\<lambda>(s, p, r). length s)") (auto simp: neq_Nil_conv)

text \<open>
  White space and line terminators of ECMAScript: what \<open>trim\<close> removes and what
  \<open>\s\<close> matches.
\<close>

definition isWhiteSpace :: "jschar \<Rightarrow> bool" where
  "isWhiteSpace c =
     (c \<in> {0x9, 0xA, 0xB, 0xC, 0xD, 0x20, 0xA0, 0x1680, 0x2028, 0x2029, 0x202F, 0x205F,
            0x3000, 0xFEFF}
      \<or> (0x2000 \<le> c \<and> c \<le> 0x200A))"

definition str_trim :: "jsstring \<Rightarrow> jsstring" where
  "str_trim s = rev (dropWhile isWhiteSpace (rev (dropWhile isWhiteSpace s)))"

text \<open>
  Case folding of a regular expression with the \<open>i\<close> flag and without the \<open>u\<close> flag.
  It is upper-casing; a code unit outside ASCII never folds to an ASCII one, so for a
  comparison with the ASCII letters of a pattern only the ASCII range matters.
\<close>

definition canonicalize :: "jschar \<Rightarrow> jschar" where
  "canonicalize c = (if 0x61 \<le> c \<and> c \<le> 0x7A then c - 0x20 else c)"

text \<open>The test \<open>/^\s*<html[\s>]/i.test(s)\<close>.\<close>

definition html_open_regex_test :: "jsstring \<Rightarrow> bool" where
  "html_open_regex_test s =
     (case dropWhile isWhiteSpace s of
        c0 # c1 # c2 # c3 # c4 # c5 # rest \<Rightarrow>
          map canonicalize [c0, c1, c2, c3, c4] = map canonicalize (js ''<html'')
          \<and> (isWhiteSpace c5 \<or> c5 = of_char CHR ''>'')
      | _ \<Rightarrow> False)"

text \<open>A template literal prints an absent optional string as \<open>undefined\<close>.\<close>

definition template_string :: "jsstring option \<Rightarrow> jsstring" where
  "template_string v = (case v of None \<Rightarrow> js ''undefined'' | Some s \<Rightarrow> s)"


section \<open>Content classification\<close>

definition isFullHTMLDocument :: "jsstring \<Rightarrow> bool" where
  "isFullHTMLDocument content =
     (let trimmed = str_trim content
      in str_startsWith trimmed (js ''<!DOCTYPE'') \<or> str_startsWith trimmed (js ''<html'')
         \<or> html_open_regex_test trimmed)"

definition isCompleteHTMLDocument :: "jsstring \<Rightarrow> bool" where
  "isCompleteHTMLDocument content =
     (let hasClosingBody = str_includes content (js ''</body>'');
          hasClosingHtml = str_includes content (js ''</html>'')
      in hasClosingBody \<and> hasClosingHtml)"

definition needsIframeRendering :: "jsstring \<Rightarrow> bool" where
  "needsIframeRendering content =
     (let hasScript = str_includes content (js ''<script'');
          hasCanvas = str_includes content (js ''<canvas'');
          hasChartJS = (str_includes content (js ''chart.js'') \<or> str_includes content (js ''Chart.js''));
          hasInteractiveLib = (str_includes content (js ''d3.js'') \<or> str_includes content (js ''plotly''))
      in hasScript \<or> hasCanvas \<or> hasChartJS \<or> hasInteractiveLib)"

text \<open>
  The optional flag \<open>renderHTML\<close> of the properties is used as a condition: absent counts
  as false.
\<close>

definition truthy :: "bool option \<Rightarrow> bool" where
  "truthy b = (b = Some True)"

datatype classification = PlainMarkdown | CompleteSimpleHTML | CompleteRichHTML | IncompleteHTML

text \<open>
  The four branches of the renderer, with the conditions of its \<open>if\<close> chain in the
  order of the source.
\<close>

definition classify :: "bool option \<Rightarrow> jsstring \<Rightarrow> classification" where
  "classify renderHTML messageContent =
     (if truthy renderHTML \<and> isFullHTMLDocument messageContent
         \<and> isCompleteHTMLDocument messageContent \<and> needsIframeRendering messageContent
      then CompleteRichHTML
      else if truthy renderHTML \<and> isFullHTMLDocument messageContent
         \<and> isCompleteHTMLDocument messageContent \<and> \<not> needsIframeRendering messageContent
      then CompleteSimpleHTML
      else if truthy renderHTML \<and> isFullHTMLDocument messageContent
         \<and> \<not> isCompleteHTMLDocument messageContent
      then IncompleteHTML
      else PlainMarkdown)"


section \<open>The collaborators of the renderer\<close>

text \<open>
  The browser's \<open>DOMParser\<close> and the markdown library are not part of the repository;
  the renderer takes them as parameters. The source guards every call of the parser with
  \<open>try\<close>/\<open>catch\<close>, so the parser may raise; \<open>Marked.parse\<close> maps a string to a string
  under the \<open>sanitize\<close> option set from \<open>renderHTML\<close>. A parsed document may lack a
  body (\<open>doc.body?.\<close> in the source).
\<close>

datatype js_error = JsError jsstring

record html_body =
  innerHTML :: jsstring
  textContent :: jsstring

record document =
  body :: "html_body option"

record collaborators =
  parseFromString :: "jsstring \<Rightarrow> js_error + document"
  marked_parse :: "bool \<Rightarrow> jsstring \<Rightarrow> jsstring"
  iframeDocAvailable :: bool

record props =
  renderHTML :: "bool option"
  textColor :: "jsstring option"
  apiHost :: "jsstring option"
  chatflowid :: jsstring
  chatId :: jsstring
  agentName :: jsstring

definition defaultTextColor :: jsstring where
  "defaultTextColor = js ''#303235''"

definition sanitize_option :: "bool option \<Rightarrow> bool" where
  "sanitize_option r = (case r of None \<Rightarrow> True | Some b \<Rightarrow> \<not> b)"

text \<open>\<open>a || b\<close> on an optional string: an absent or empty \<open>a\<close> gives \<open>b\<close>.\<close>

definition or_else :: "jsstring option \<Rightarrow> jsstring \<Rightarrow> jsstring" where
  "or_else a b = (case a of None \<Rightarrow> b | Some s \<Rightarrow> if s = [] then b else s)"

text \<open>
  What a render does to its element, in order; the warnings go to the console. The
  iframe is created with its fixed style and attributes (the bot bubble also hides the
  overflow of its element); the later resize only sets the height and opacity of the
  iframe.
\<close>

datatype dom_op =
    SetInnerHTML jsstring
  | SetTextContent jsstring
  | SetColor jsstring jsstring
  | SetLinkTarget jsstring
  | AppendIframe
  | IframeWrite jsstring

record rendered =
  ops :: "dom_op list"
  warnings :: "(jsstring \<times> js_error) list"


section \<open>The document written into the iframe\<close>

definition cssOverride :: jsstring where
  \<open>cssOverride = js
    (''\<newline>'' @
     ''              <style id="flowise-iframe-override">\<newline>'' @
     ''                * { box-sizing: border-box !important; }\<newline>'' @
     ''                html { \<newline>'' @
     ''                  overflow: hidden !important; \<newline>'' @
     ''                  margin: 0 !important;\<newline>'' @
     ''                  padding: 0 !important;\<newline>'' @
     ''                }\<newline>'' @
     ''                body { \<newline>'' @
     ''                  margin: 0 !important; \<newline>'' @
     ''                  padding: 15px !important; \<newline>'' @
     ''                  overflow: hidden !important;\<newline>'' @
     ''                  box-sizing: border-box !important;\<newline>'' @
     ''                }\<newline>'' @
     ''                .chart-container,\<newline>'' @
     ''                div[class*="chart"],\<newline>'' @
     ''                div[class*="container"] { \<newline>'' @
     ''                  width: 100% !important; \<newline>'' @
     ''                  max-width: 100% !important;\<newline>'' @
     ''                  margin-left: 0 !important;\<newline>'' @
     ''                  margin-right: 0 !important;\<newline>'' @
     ''                  padding: 0 5% !important;\<newline>'' @
     ''                }\<newline>'' @
     ''                canvas {\<newline>'' @
     ''                  max-width: 100% !important;\<newline>'' @
     ''                  width: 100% !important;\<newline>'' @
     ''                }\<newline>'' @
     ''                h1 {\<newline>'' @
     ''                  margin-top: 10px !important;\<newline>'' @
     ''                  text-align: center !important;\<newline>'' @
     ''                  font-size: 1.5em !important;\<newline>'' @
     ''                }\<newline>'' @
     ''              </style>\<newline>'' @
     ''            '')\<close>

definition mapKeyPlaceholder :: jsstring where
  "mapKeyPlaceholder = js ''GOOGLE_MAP_KEY''"

definition mapKey :: jsstring where
  "mapKey = js ''abc''"

text \<open>The override stylesheet is inserted into the content.\<close>

definition insertCssOverride :: "jsstring \<Rightarrow> jsstring" where
  "insertCssOverride messageContent =
     (if str_includes messageContent (js ''</head>'')
      then str_replace messageContent (js ''</head>'') (cssOverride @ js ''</head>'')
      else if str_includes messageContent (js ''</style>'')
      then (let lastStyleIndex = str_lastIndexOf messageContent (js ''</style>'')
            in str_slice messageContent 0 (lastStyleIndex + 8) @ cssOverride
               @ str_sliceFrom messageContent (lastStyleIndex + 8))
      else if str_includes messageContent (js ''<head>'')
      then str_replace messageContent (js ''<head>'') (js ''<head>'' @ cssOverride)
      else cssOverride @ messageContent)"

text \<open>The placeholder of the map key is replaced.\<close>

definition replaceMapKey :: "jsstring \<Rightarrow> jsstring" where
  "replaceMapKey modifiedContent =
     (if str_includes modifiedContent mapKeyPlaceholder
      then str_replaceAll modifiedContent mapKeyPlaceholder mapKey
      else modifiedContent)"

definition iframeDocument :: "jsstring \<Rightarrow> jsstring" where
  "iframeDocument messageContent = replaceMapKey (insertCssOverride messageContent)"

text \<open>
  The iframe branch: the element is emptied, the iframe appended and, from a timer
  callback, the document written if the iframe's document is there.
\<close>

definition renderIframe :: "collaborators \<Rightarrow> jsstring \<Rightarrow> rendered" where
  "renderIframe env messageContent =
     \<lparr>ops = [SetInnerHTML [], AppendIframe]
             @ (if iframeDocAvailable env then [IframeWrite (iframeDocument messageContent)] else []),
      warnings = []\<rparr>"


section \<open>Incomplete documents\<close>

definition loadingPlaceholder :: jsstring where
  "loadingPlaceholder = js ''Loading content... '' @ [hourglass]"

definition extractTextFromIncompleteHTML :: "collaborators \<Rightarrow> jsstring \<Rightarrow> jsstring" where
  "extractTextFromIncompleteHTML env content =
     (case parseFromString env content of
        Inl e \<Rightarrow> loadingPlaceholder
      | Inr doc \<Rightarrow>
          (let bodyText = or_else (map_option textContent (body doc)) []
           in if length (str_trim bodyText) > 0
              then str_trim bodyText @ js '' '' @ [hourglass]
              else loadingPlaceholder))"


section \<open>The bot bubble\<close>

definition headingSelector :: jsstring where
  "headingSelector = js ''a, h1, h2, h3, h4, h5, h6, strong, em, blockquote, li''"

text \<open>
  The branch for a complete document without scripts: only the inner content of the
  parsed body is injected, or the whole content when that is absent or empty. Whatever
  the \<open>try\<close> block raises is caught, logged, and the content parsed as markdown.
\<close>

definition renderSimpleHTML :: "props \<Rightarrow> collaborators \<Rightarrow> jsstring \<Rightarrow> rendered" where
  "renderSimpleHTML p env messageContent =
     (case parseFromString env messageContent of
        Inr doc \<Rightarrow>
          (let bodyContent = or_else (map_option innerHTML (body doc)) messageContent;
               textColor = (case textColor p of None \<Rightarrow> defaultTextColor | Some c \<Rightarrow> c)
           in \<lparr>ops = [SetInnerHTML bodyContent,
                       SetColor (headingSelector @ js '', p'') textColor,
                       SetLinkTarget (js ''_blank'')],
               warnings = []\<rparr>)
      | Inl e \<Rightarrow>
          \<lparr>ops = [SetInnerHTML (marked_parse env (sanitize_option (renderHTML p)) messageContent)],
           warnings = [(js ''Failed to parse HTML, falling back to markdown:'', e)]\<rparr>)"

definition renderIncompleteHTML :: "collaborators \<Rightarrow> jsstring \<Rightarrow> rendered" where
  "renderIncompleteHTML env messageContent =
     (let extractedText = extractTextFromIncompleteHTML env messageContent
      in \<lparr>ops = [SetTextContent extractedText], warnings = []\<rparr>)"

text \<open>
  The markdown branch. The source colours every \<open>pre\<close> and then every \<open>code\<close> below
  it, which is the selector \<open>pre code\<close>.
\<close>

definition renderMarkdown :: "props \<Rightarrow> collaborators \<Rightarrow> jsstring \<Rightarrow> rendered" where
  "renderMarkdown p env messageContent =
     (let textColor = (case textColor p of None \<Rightarrow> defaultTextColor | Some c \<Rightarrow> c)
      in \<lparr>ops = [SetInnerHTML (marked_parse env (sanitize_option (renderHTML p)) messageContent),
                  SetColor headingSelector textColor,
                  SetColor (js ''pre'') (js ''#FFFFFF''),
                  SetColor (js ''pre code'') (js ''#FFFFFF''),
                  SetColor (js ''code:not(pre code)'') (js ''#4CAF50''),
                  SetLinkTarget (js ''_blank'')],
          warnings = []\<rparr>)"

text \<open>
  \<open>setBotMessageRef\<close> up to the point where the message is rendered (the rating and the
  file annotations that follow do not touch what was rendered).
\<close>

definition setBotMessageRef :: "props \<Rightarrow> collaborators \<Rightarrow> jsstring \<Rightarrow> rendered" where
  "setBotMessageRef p env messageContent =
     (if truthy (renderHTML p) \<and> isFullHTMLDocument messageContent
         \<and> isCompleteHTMLDocument messageContent \<and> needsIframeRendering messageContent
      then renderIframe env messageContent
      else if truthy (renderHTML p) \<and> isFullHTMLDocument messageContent
         \<and> isCompleteHTMLDocument messageContent \<and> \<not> needsIframeRendering messageContent
      then renderSimpleHTML p env messageContent
      else if truthy (renderHTML p) \<and> isFullHTMLDocument messageContent
         \<and> \<not> isCompleteHTMLDocument messageContent
      then renderIncompleteHTML env messageContent
      else renderMarkdown p env messageContent)"


section \<open>The agent reasoning bubble\<close>

definition agentHeaderHTML :: "props \<Rightarrow> jsstring" where
  "agentHeaderHTML p = js ''**'' @ [check_mark] @ js '' '' @ agentName p @ js ''** <br/><br/>''"

definition agentHeaderMarkdown :: "props \<Rightarrow> jsstring" where
  "agentHeaderMarkdown p =
     js ''**'' @ [check_mark] @ js '' '' @ agentName p @ js ''** \<newline>\<newline>''"

definition agentSimpleHTML :: "props \<Rightarrow> collaborators \<Rightarrow> jsstring \<Rightarrow> rendered" where
  "agentSimpleHTML p env messageContent =
     (case parseFromString env messageContent of
        Inr doc \<Rightarrow>
          (let bodyContent = or_else (map_option innerHTML (body doc)) messageContent
           in \<lparr>ops = [SetInnerHTML (agentHeaderHTML p @ bodyContent),
                       SetLinkTarget (js ''_blank'')],
               warnings = []\<rparr>)
      | Inl e \<Rightarrow>
          \<lparr>ops = [SetInnerHTML (marked_parse env (sanitize_option (renderHTML p))
                                  (agentHeaderMarkdown p @ messageContent))],
           warnings = [(js ''Failed to parse HTML, falling back to markdown:'', e)]\<rparr>)"

definition onMount :: "props \<Rightarrow> collaborators \<Rightarrow> jsstring \<Rightarrow> rendered" where
  "onMount p env messageContent =
     (if truthy (renderHTML p) \<and> isFullHTMLDocument messageContent
         \<and> isCompleteHTMLDocument messageContent \<and> needsIframeRendering messageContent
      then renderIframe env messageContent
      else if truthy (renderHTML p) \<and> isFullHTMLDocument messageContent
         \<and> isCompleteHTMLDocument messageContent \<and> \<not> needsIframeRendering messageContent
      then agentSimpleHTML p env messageContent
      else if truthy (renderHTML p) \<and> isFullHTMLDocument messageContent
         \<and> \<not> isCompleteHTMLDocument messageContent
      then (let extractedText = extractTextFromIncompleteHTML env messageContent
            in \<lparr>ops = [SetInnerHTML (agentHeaderHTML p @ extractedText)], warnings = []\<rparr>)
      else \<lparr>ops = [SetInnerHTML (marked_parse env (sanitize_option (renderHTML p))
                                   (agentHeaderMarkdown p @ messageContent)),
                   SetLinkTarget (js ''_blank'')],
            warnings = []\<rparr>)"


section \<open>Image artifacts\<close>

text \<open>
  An artifact has a type and a data string (the source casts \<open>item.data\<close> to a string);
  an entry of the artifact array may be null.
\<close>

record file_upload =
  upload_type :: jsstring
  upload_data :: jsstring

definition storagePrefix :: jsstring where
  "storagePrefix = js ''FILE-STORAGE::''"

definition isImage :: "file_upload \<Rightarrow> bool" where
  "isImage item = (upload_type item = js ''png'' \<or> upload_type item = js ''jpeg'')"

definition uploadFileUrl :: "props \<Rightarrow> jsstring \<Rightarrow> jsstring" where
  "uploadFileUrl p fileName =
     template_string (apiHost p) @ js ''/api/v1/get-upload-file?chatflowId='' @ chatflowid p
       @ js ''&chatId='' @ chatId p @ js ''&fileName='' @ fileName"

text \<open>The \<open>src\<close> of the image that \<open>renderArtifacts\<close> of the bot bubble shows.\<close>

definition botImageSrc :: "props \<Rightarrow> file_upload \<Rightarrow> jsstring" where
  "botImageSrc p item =
     (let isFileStorage = str_startsWith (upload_data item) storagePrefix
      in if isFileStorage
         then uploadFileUrl p (str_replace (upload_data item) storagePrefix [])
         else upload_data item)"

text \<open>
  \<open>agentReasoningArtifacts\<close> of the agent bubble rewrites the data of every image of a
  copy of the array; its \<open>renderArtifacts\<close> then shows the data of an image as \<open>src\<close>.
\<close>

definition agentReasoningArtifacts :: "props \<Rightarrow> file_upload option list \<Rightarrow> file_upload option list" where
  "agentReasoningArtifacts p artifacts =
     map (\<lambda>artifact.
            case artifact of
              None \<Rightarrow> None
            | Some a \<Rightarrow>
                if isImage a
                then Some (a\<lparr>upload_data := uploadFileUrl p (str_replace (upload_data a) storagePrefix [])\<rparr>)
                else Some a)
         artifacts"

definition agentImageSrc :: "file_upload \<Rightarrow> jsstring" where
  "agentImageSrc item = upload_data item"


section \<open>Feedback\<close>

text \<open>
  The signals of the bot bubble that the thumbs touch, the chat history kept in local
  storage (the rating of each stored message by message id; absent when the entry is
  missing or is not JSON), and the feedback requests that wait for their response. A
  click handler is an \<open>async\<close> function: it runs up to its \<open>await\<close> at the click and the
  rest when the response arrives.
\<close>

datatype thumb = Up | Down

record feedback_state =
  rating :: jsstring
  feedbackId :: jsstring
  showFeedbackContentDialog :: bool
  thumbsUpColor :: jsstring
  thumbsDownColor :: jsstring
  storedHistory :: "(jsstring option \<times> jsstring) list option"
  awaiting :: "thumb list"

text \<open>
  The outcome of \<open>sendFeedbackQuery\<close>: the request is rejected, or it resolves to a
  result whose \<open>data\<close> may be absent and, when present, may carry an id.
\<close>

datatype query_outcome = Rejected | Resolved "jsstring option option"

datatype feedback_event = ThumbsUpClick | ThumbsDownClick | QuerySettled nat query_outcome

fun set_first_rating ::
  "jsstring option \<Rightarrow> jsstring \<Rightarrow> (jsstring option \<times> jsstring) list
     \<Rightarrow> (jsstring option \<times> jsstring) list option" where
  "set_first_rating mid r [] = None"
| "set_first_rating mid r ((m, old) # ms) =
     (if m = mid then Some ((m, r) # ms)
      else map_option (\<lambda>ms'. (m, old) # ms') (set_first_rating mid r ms))"

definition saveToLocalStorage :: "jsstring option \<Rightarrow> jsstring \<Rightarrow> feedback_state \<Rightarrow> feedback_state" where
  "saveToLocalStorage messageId r st =
     (case storedHistory st of
        None \<Rightarrow> st
      | Some messages \<Rightarrow>
          (case set_first_rating messageId r messages of
             None \<Rightarrow> st
           | Some messages' \<Rightarrow> st\<lparr>storedHistory := Some messages'\<rparr>))"

text \<open>The two click handlers up to their \<open>await\<close>: the request is sent only from the empty rating.\<close>

definition onThumbsUpClick :: "feedback_state \<Rightarrow> feedback_state" where
  "onThumbsUpClick st =
     (if rating st = [] then st\<lparr>awaiting := awaiting st @ [Up]\<rparr> else st)"

definition onThumbsDownClick :: "feedback_state \<Rightarrow> feedback_state" where
  "onThumbsDownClick st =
     (if rating st = [] then st\<lparr>awaiting := awaiting st @ [Down]\<rparr> else st)"

text \<open>The rest of each click handler, run with the outcome of its request.\<close>

definition onThumbsUpSettled :: "jsstring option \<Rightarrow> query_outcome \<Rightarrow> feedback_state \<Rightarrow> feedback_state" where
  "onThumbsUpSettled messageId outcome st =
     (case outcome of
        Rejected \<Rightarrow> st
      | Resolved None \<Rightarrow> st
      | Resolved (Some data_id) \<Rightarrow>
          saveToLocalStorage messageId (js ''THUMBS_UP'')
            (st\<lparr>rating := js ''THUMBS_UP'', feedbackId := or_else data_id [],
                showFeedbackContentDialog := True, thumbsUpColor := js ''#006400''\<rparr>))"

definition onThumbsDownSettled :: "jsstring option \<Rightarrow> query_outcome \<Rightarrow> feedback_state \<Rightarrow> feedback_state" where
  "onThumbsDownSettled messageId outcome st =
     (case outcome of
        Rejected \<Rightarrow> st
      | Resolved None \<Rightarrow> st
      | Resolved (Some data_id) \<Rightarrow>
          saveToLocalStorage messageId (js ''THUMBS_DOWN'')
            (st\<lparr>rating := js ''THUMBS_DOWN'', feedbackId := or_else data_id [],
                showFeedbackContentDialog := True, thumbsDownColor := js ''#8B0000''\<rparr>))"

text \<open>
  One event of the bubble: a click, or the response to the \<open>n\<close>-th waiting request
  (responses may arrive in any order).
\<close>

definition feedback_step :: "jsstring option \<Rightarrow> feedback_state \<Rightarrow> feedback_event \<Rightarrow> feedback_state" where
  "feedback_step messageId st e =
     (case e of
        ThumbsUpClick \<Rightarrow> onThumbsUpClick st
      | ThumbsDownClick \<Rightarrow> onThumbsDownClick st
      | QuerySettled n outcome \<Rightarrow>
          if n < length (awaiting st)
          then (let st' = st\<lparr>awaiting := take n (awaiting st) @ drop (Suc n) (awaiting st)\<rparr>
                in case awaiting st ! n of
                     Up \<Rightarrow> onThumbsUpSettled messageId outcome st'
                   | Down \<Rightarrow> onThumbsDownSettled messageId outcome st')
          else st)"

definition feedback_run :: "jsstring option \<Rightarrow> feedback_state \<Rightarrow> feedback_event list \<Rightarrow> feedback_state" where
  "feedback_run messageId st es = foldl (feedback_step messageId) st es"

text \<open>The rating of the message, when it has one, is taken over when the bubble is set up.\<close>

definition initRating :: "jsstring option \<Rightarrow> feedback_state \<Rightarrow> feedback_state" where
  "initRating message_rating st =
     (case message_rating of
        None \<Rightarrow> st
      | Some r \<Rightarrow>
          if r = [] then st
          else (let st1 = st\<lparr>rating := r\<rparr>
                in if r = js ''THUMBS_UP'' then st1\<lparr>thumbsUpColor := js ''#006400''\<rparr>
                   else if r = js ''THUMBS_DOWN'' then st1\<lparr>thumbsDownColor := js ''#8B0000''\<rparr>
                   else st1))"


section \<open>The same branch with exceptions\<close>


record outcome =
  performed :: "dom_op list"
  logged :: "(jsstring \<times> js_error) list"
  raised :: "js_error option"










section \<open>Sample inputs\<close>

definition sample_props :: props where
  "sample_props =
     \<lparr>renderHTML = Some True, textColor = None, apiHost = Some (js ''https://host''),
      chatflowid = js ''flow'', chatId = js ''chat'', agentName = js ''Agent''\<rparr>"

definition failing_parser :: "jsstring \<Rightarrow> js_error + document" where
  "failing_parser s = Inl (JsError (js ''parse error''))"

definition sample_env :: collaborators where
  "sample_env =
     \<lparr>parseFromString = failing_parser, marked_parse = (\<lambda>sanitize s. s),
      iframeDocAvailable = True\<rparr>"


text \<open>
  What the parser of a browser returns for the contents used below: the text of
  \<open><html><body>&lt;script&gt;\<close> is \<open><script>\<close> (the entities are decoded), the body of
  \<open><html><body><p>hi</p></body></html>\<close> has the inner content \<open><p>hi</p>\<close>, and
  the body of \<open><html><body></body></html>\<close> is empty.
\<close>

definition escaped_script_parser :: "jsstring \<Rightarrow> js_error + document" where
  "escaped_script_parser s =
     Inr \<lparr>body = Some \<lparr>innerHTML = js ''&lt;script&gt;'', textContent = js ''<script>''\<rparr>\<rparr>"

definition paragraph_parser :: "jsstring \<Rightarrow> js_error + document" where
  "paragraph_parser s =
     Inr \<lparr>body = Some \<lparr>innerHTML = js ''<p>hi</p>'', textContent = js ''hi''\<rparr>\<rparr>"

definition empty_body_parser :: "jsstring \<Rightarrow> js_error + document" where
  "empty_body_parser s = Inr \<lparr>body = Some \<lparr>innerHTML = [], textContent = []\<rparr>\<rparr>"

definition inline_image :: file_upload where
  "inline_image = \<lparr>upload_type = js ''png'', upload_data = js ''data:image/png;base64,AAAA''\<rparr>"

definition rated_up :: feedback_state where
  "rated_up =
     \<lparr>rating = js ''THUMBS_UP'', feedbackId = js ''f1'', showFeedbackContentDialog = False,
      thumbsUpColor = js ''#006400'', thumbsDownColor = js ''#3B81F6'',
      storedHistory = None, awaiting = []\<rparr>"

definition unrated :: feedback_state where
  "unrated =
     \<lparr>rating = [], feedbackId = [], showFeedbackContentDialog = False,
      thumbsUpColor = js ''#3B81F6'', thumbsDownColor = js ''#3B81F6'',
      storedHistory = None, awaiting = []\<rparr>"





section \<open>Facts about the string operations\<close>

lemmas string_eval = js_def isWhiteSpace_def str_trim_def canonicalize_def
  html_open_regex_test_def isFullHTMLDocument_def isCompleteHTMLDocument_def
  needsIframeRendering_def truthy_def

lemma str_startsWith_prefix: "str_startsWith s p \<longleftrightarrow> prefix p s"
  by (induction s p rule: str_startsWith.induct) auto

lemma str_includes_sublist: "str_includes s p \<longleftrightarrow> sublist p s"
proof (induction s)
  case Nil
  show ?case by simp
next
  case (Cons c cs)
  show ?case
  proof (cases p)
    case Nil
    then show ?thesis by simp
  next
    case (Cons x xs)
    then show ?thesis
      using Cons.IH by (simp add: str_startsWith_prefix sublist_Cons_right)
  qed
qed

text \<open>A replacement that shares no code unit with the pattern cannot complete a match.\<close>

lemma str_replaceAll_startsWith:
  "r \<noteq> [] \<Longrightarrow> hd r \<notin> set q \<Longrightarrow> str_startsWith (str_replaceAll s p r) q
     \<Longrightarrow> str_startsWith s q"
proof (induction s p r arbitrary: q rule: str_replaceAll.induct)
  case (1 p r)
  then show ?case by simp
next
  case (2 c cs p r)
  show ?case
  proof (cases q)
    case Nil
    then show ?thesis by simp
  next
    case (Cons x xs)
    show ?thesis
    proof (cases "p \<noteq> [] \<and> str_startsWith (c # cs) p")
      case True
      with 2 Cons show ?thesis by (cases r) auto
    next
      case False
      with 2 Cons show ?thesis by auto
    qed
  qed
qed

lemma str_includes_append_left:
  "\<not> str_includes s p \<Longrightarrow> set r \<inter> set p = {} \<Longrightarrow> p \<noteq> [] \<Longrightarrow> \<not> str_includes (r @ s) p"
proof (induction r)
  case Nil
  then show ?case by simp
next
  case (Cons a r)
  then show ?case by (cases p) auto
qed

lemma str_replaceAll_removes:
  "p \<noteq> [] \<Longrightarrow> r \<noteq> [] \<Longrightarrow> set r \<inter> set p = {} \<Longrightarrow> \<not> str_includes (str_replaceAll s p r) p"
proof (induction s p r rule: str_replaceAll.induct)
  case (1 p r)
  then show ?case by simp
next
  case (2 c cs p r)
  show ?case
  proof (cases "p \<noteq> [] \<and> str_startsWith (c # cs) p")
    case True
    with 2 have "\<not> str_includes (str_replaceAll (drop (length p) (c # cs)) p r) p"
      by simp
    with 2 True show ?thesis by (simp add: str_includes_append_left)
  next
    case False
    with 2 have ih: "\<not> str_includes (str_replaceAll cs p r) p" by simp
    have "hd r \<notin> set p" using 2(4,5) by (cases r) auto
    with str_replaceAll_startsWith [of r p "c # cs" p] 2(4) False 2(3)
    have "\<not> str_startsWith (str_replaceAll (c # cs) p r) p" by blast
    moreover have "str_replaceAll (c # cs) p r = c # str_replaceAll cs p r"
      using False by auto
    ultimately show ?thesis using ih by simp
  qed
qed

lemma str_replaceAll_absent: "\<not> str_includes s p \<Longrightarrow> str_replaceAll s p r = s"
  by (induction s p r rule: str_replaceAll.induct) auto

lemma mapKey_disjoint: "set mapKey \<inter> set mapKeyPlaceholder = {}"
  by (simp add: mapKey_def mapKeyPlaceholder_def js_def)


lemma str_includes_length: "str_includes s p \<Longrightarrow> length p \<le> length s"
  by (auto simp: str_includes_sublist sublist_def)

lemma str_startsWith_append: "str_startsWith s p \<Longrightarrow> s = p @ drop (length p) s"
  by (auto simp: str_startsWith_prefix prefix_def)

text \<open>
  A replaced or found occurrence splits the string; the first one has no occurrence
  ending before its end, the last one none starting behind its start.
\<close>

lemma str_replace_first:
  "p \<noteq> [] \<Longrightarrow> str_includes s p \<Longrightarrow>
     \<exists>pre post. s = pre @ p @ post \<and> \<not> str_includes (pre @ butlast p) p
        \<and> str_replace s p r = pre @ r @ post"
proof (induction s)
  case Nil
  then show ?case by simp
next
  case (Cons c cs)
  show ?case
  proof (cases "str_startsWith (c # cs) p")
    case True
    have "\<not> str_includes (butlast p) p"
    proof
      assume "str_includes (butlast p) p"
      then have "length p \<le> length (butlast p)" by (rule str_includes_length)
      then show False using Cons.prems(1) by (cases p rule: rev_cases) simp_all
    qed
    moreover have "c # cs = [] @ p @ drop (length p) (c # cs)"
      using str_startsWith_append [OF True] by simp
    moreover have "str_replace (c # cs) p r = [] @ r @ drop (length p) (c # cs)"
      using True by simp
    ultimately show ?thesis by (metis append_Nil)
  next
    case False
    with Cons.prems have "str_includes cs p" by simp
    with Cons.IH Cons.prems(1) obtain pre post where
      d: "cs = pre @ p @ post" "\<not> str_includes (pre @ butlast p) p"
         "str_replace cs p r = pre @ r @ post"
      by blast
    have "\<not> str_startsWith (c # pre @ butlast p) p"
    proof
      assume "str_startsWith (c # pre @ butlast p) p"
      then have "prefix p (c # pre @ butlast p)" by (simp add: str_startsWith_prefix)
      moreover have "prefix (c # pre @ butlast p) (c # cs)"
        using d(1) Cons.prems(1) by (simp add: prefix_def) (metis append_butlast_last_id append_Cons append_assoc)
      ultimately have "prefix p (c # cs)" by (rule prefix_order.trans)
      with False show False by (simp add: str_startsWith_prefix)
    qed
    with d(2) have "\<not> str_includes ((c # pre) @ butlast p) p" by simp
    moreover have "c # cs = (c # pre) @ p @ post" using d(1) by simp
    moreover have "str_replace (c # cs) p r = (c # pre) @ r @ post"
      using False d(3) by simp
    ultimately show ?thesis by blast
  qed
qed

lemma last_occurrence_None: "last_occurrence s p = None \<longleftrightarrow> \<not> str_includes s p"
  by (induction s) (auto split: option.splits)

lemma last_occurrence_decomp:
  "p \<noteq> [] \<Longrightarrow> str_includes s p \<Longrightarrow>
     \<exists>pre post. last_occurrence s p = Some (length pre) \<and> s = pre @ p @ post
        \<and> \<not> str_includes (tl p @ post) p"
proof (induction s)
  case Nil
  then show ?case by simp
next
  case (Cons c cs)
  show ?case
  proof (cases "str_includes cs p")
    case True
    with Cons.IH Cons.prems(1) obtain pre post where
      d: "last_occurrence cs p = Some (length pre)" "cs = pre @ p @ post"
         "\<not> str_includes (tl p @ post) p"
      by blast
    have "last_occurrence (c # cs) p = Some (length (c # pre))" using d(1) by simp
    moreover have "c # cs = (c # pre) @ p @ post" using d(2) by simp
    ultimately show ?thesis using d(3) by blast
  next
    case False
    with Cons.prems have sw: "str_startsWith (c # cs) p" by simp
    have "last_occurrence (c # cs) p = Some (length ([]::'a list))"
      using False sw by (simp add: last_occurrence_None [symmetric])
    moreover have e: "c # cs = [] @ p @ drop (length p) (c # cs)"
      using str_startsWith_append [OF sw] by simp
    moreover have "tl p @ drop (length p) (c # cs) = cs"
      using e Cons.prems(1) by (cases p) auto
    ultimately show ?thesis using False by metis
  qed
qed

lemma slice_to: "n \<le> length s \<Longrightarrow> str_slice s 0 (int n) = take n s"
  by (simp add: str_slice_def slice_index_def)

lemma slice_from: "n \<le> length s \<Longrightarrow> str_sliceFrom s (int n) = drop n s"
  by (simp add: str_sliceFrom_def slice_index_def)

lemma str_includes_set: "str_includes s p \<Longrightarrow> set p \<subseteq> set s"
  by (auto simp: str_includes_sublist sublist_def)

lemma str_includes_append_right:
  assumes "p \<noteq> []" and "last p \<notin> set sfx" and "str_includes (t @ sfx) p"
  shows "str_includes t p"
proof -
  from assms(3) have "sublist p (t @ sfx)" by (simp add: str_includes_sublist)
  then consider "sublist p t" | "sublist p sfx"
    | xs1 xs2 where "p = xs1 @ xs2" "suffix xs1 t" "prefix xs2 sfx"
    by (auto simp: sublist_append)
  then have "sublist p t"
  proof cases
    case 1
    then show ?thesis .
  next
    case 2
    then have "set p \<subseteq> set sfx" by (auto simp: sublist_def)
    with assms(1,2) show ?thesis using last_in_set by blast
  next
    case 3
    show ?thesis
    proof (cases "xs2 = []")
      case True
      with 3 show ?thesis by (simp add: suffix_imp_sublist)
    next
      case False
      then have "last p = last xs2" using 3(1) by simp
      moreover have "last xs2 \<in> set sfx" using False 3(3) by (auto simp: prefix_def)
      ultimately show ?thesis using assms(2) by simp
    qed
  qed
  then show ?thesis by (simp add: str_includes_sublist)
qed


lemma str_replace_prefix: "p \<noteq> [] \<Longrightarrow> str_startsWith s p \<Longrightarrow> str_replace s p r = r @ drop (length p) s"
  by (cases s; cases p) auto


text \<open>No match of the scan spans a boundary whose neighbours are not both part of the pattern.\<close>

lemma str_replaceAll_append:
  "a = [] \<or> b = [] \<or> last a \<notin> set p \<or> hd b \<notin> set p \<Longrightarrow>
     str_replaceAll (a @ b) p r = str_replaceAll a p r @ str_replaceAll b p r"
proof (induction a p r rule: str_replaceAll.induct)
  case (1 p r)
  show ?case by simp
next
  case (2 c cs p r)
  show ?case
  proof (cases "p \<noteq> [] \<and> str_startsWith (c # cs) p")
    case True
    then have pre: "prefix p (c # cs)" by (simp add: str_startsWith_prefix)
    then have len: "length p \<le> length (c # cs)" by (rule prefix_length_le)
    from pre have "prefix p ((c # cs) @ b)" by (rule prefix_prefix)
    then have m: "str_startsWith (c # cs @ b) p" by (simp add: str_startsWith_prefix)
    have dr: "drop (length p) (c # cs @ b) = drop (length p) (c # cs) @ b"
      using len drop_append [of "length p" "c # cs" b] by simp
    have bnd: "drop (length p) (c # cs) = [] \<or> b = []
               \<or> last (drop (length p) (c # cs)) \<notin> set p \<or> hd b \<notin> set p"
      using "2.prems" by (cases "drop (length p) (c # cs) = []") (auto simp: last_drop)
    have "str_replaceAll (drop (length p) (c # cs) @ b) p r
            = str_replaceAll (drop (length p) (c # cs)) p r @ str_replaceAll b p r"
      using "2.IH"(1) [OF True bnd] .
    moreover have "str_replaceAll ((c # cs) @ b) p r
                     = r @ str_replaceAll (drop (length p) (c # cs @ b)) p r"
      using True m by simp
    moreover have "str_replaceAll (c # cs) p r = r @ str_replaceAll (drop (length p) (c # cs)) p r"
      using True by simp
    ultimately show ?thesis by (simp add: dr)
  next
    case False
    have nm: "\<not> (p \<noteq> [] \<and> str_startsWith (c # cs @ b) p)"
    proof
      assume a: "p \<noteq> [] \<and> str_startsWith (c # cs @ b) p"
      then have "prefix p ((c # cs) @ b)" by (simp add: str_startsWith_prefix)
      from this [unfolded prefix_append]
      consider "prefix p (c # cs)" | us where "p = (c # cs) @ us" "prefix us b"
        by blast
      then show False
      proof cases
        case 1
        with a False show False by (simp add: str_startsWith_prefix)
      next
        case 2
        show False
        proof (cases "us = []")
          case True
          with 2 have "prefix p (c # cs)" by simp
          with a False show False by (simp add: str_startsWith_prefix)
        next
          case us: False
          then have "b \<noteq> []" using 2(2) by auto
          moreover have "hd b = hd us" using us 2(2) by (cases us) (auto simp: prefix_def)
          then have "hd b \<in> set p" using us 2(1) by (cases us) auto
          moreover have "last (c # cs) \<in> set (c # cs)" by (rule last_in_set) simp
          then have "last (c # cs) \<in> set p" unfolding 2(1) set_append by (rule UnI1)
          ultimately show False using "2.prems" by auto
        qed
      qed
    qed
    have bnd: "cs = [] \<or> b = [] \<or> last cs \<notin> set p \<or> hd b \<notin> set p"
      using "2.prems" by (cases "cs = []") auto
    have "str_replaceAll (cs @ b) p r = str_replaceAll cs p r @ str_replaceAll b p r"
      using "2.IH"(2) [OF False bnd] .
    moreover have "str_replaceAll ((c # cs) @ b) p r = c # str_replaceAll (cs @ b) p r"
      using nm by auto
    moreover have "str_replaceAll (c # cs) p r = c # str_replaceAll cs p r"
      using False by auto
    ultimately show ?thesis by simp
  qed
qed

lemma str_includes_appendI: "str_includes t p \<Longrightarrow> str_includes (t @ s) p"
  by (simp add: str_includes_sublist sublist_append)


section \<open>Classification\<close>

lemma classify_IncompleteHTML:
  "classify r c = IncompleteHTML \<longleftrightarrow>
     truthy r \<and> isFullHTMLDocument c \<and> \<not> isCompleteHTMLDocument c"
  by (cases "truthy r"; cases "isFullHTMLDocument c"; cases "isCompleteHTMLDocument c";
      cases "needsIframeRendering c") (simp_all add: classify_def)

lemma classify_CompleteSimpleHTML:
  "classify r c = CompleteSimpleHTML \<longleftrightarrow>
     truthy r \<and> isFullHTMLDocument c \<and> isCompleteHTMLDocument c \<and> \<not> needsIframeRendering c"
  by (cases "truthy r"; cases "isFullHTMLDocument c"; cases "isCompleteHTMLDocument c";
      cases "needsIframeRendering c") (simp_all add: classify_def)

lemma classify_CompleteRichHTML:
  "classify r c = CompleteRichHTML \<longleftrightarrow>
     truthy r \<and> isFullHTMLDocument c \<and> isCompleteHTMLDocument c \<and> needsIframeRendering c"
  by (cases "truthy r"; cases "isFullHTMLDocument c"; cases "isCompleteHTMLDocument c";
      cases "needsIframeRendering c") (simp_all add: classify_def)

lemma rich_branch:
  "classify (renderHTML p) c = CompleteRichHTML \<Longrightarrow>
     setBotMessageRef p env c = renderIframe env c \<and> onMount p env c = renderIframe env c"
  by (simp add: classify_CompleteRichHTML setBotMessageRef_def onMount_def)

lemma incomplete_branch:
  "classify (renderHTML p) c = IncompleteHTML \<Longrightarrow> setBotMessageRef p env c = renderIncompleteHTML env c"
  by (simp add: classify_IncompleteHTML setBotMessageRef_def)

lemma simple_branch:
  "classify (renderHTML p) c = CompleteSimpleHTML \<Longrightarrow>
     setBotMessageRef p env c = renderSimpleHTML p env c \<and> onMount p env c = agentSimpleHTML p env c"
  by (simp add: classify_CompleteSimpleHTML setBotMessageRef_def onMount_def)

text \<open>
  C1, as stated, fails: a content with a script tag and both closing tags is rendered as
  markdown when \<open>renderHTML\<close> is off, and also when it is on but the content does not
  open with a doctype or html tag.
\<close>

theorem script_content_rendered_as_markdown:
  "str_includes (js ''<html><script></script></body></html>'') (js ''<script'')
   \<and> str_includes (js ''<html><script></script></body></html>'') (js ''</body>'')
   \<and> str_includes (js ''<html><script></script></body></html>'') (js ''</html>'')
   \<and> classify (Some False) (js ''<html><script></script></body></html>'') = PlainMarkdown
   \<and> str_includes (js ''See <script></script></body></html>'') (js ''<script'')
   \<and> str_includes (js ''See <script></script></body></html>'') (js ''</body>'')
   \<and> str_includes (js ''See <script></script></body></html>'') (js ''</html>'')
   \<and> classify (Some True) (js ''See <script></script></body></html>'') = PlainMarkdown"
  by (simp add: classify_def string_eval)

text \<open>
  C1, amended: when \<open>renderHTML\<close> is enabled and the content opens with a doctype or html
  tag (\<open>isFullHTMLDocument\<close>), every content that contains \<open><script\<close>, \<open></body>\<close> and
  \<open></html>\<close> is classified \<open>CompleteRichHTML\<close>, and both bubbles take the iframe branch.
\<close>

theorem script_document_is_rich:
  assumes "truthy (renderHTML p)"
    and "isFullHTMLDocument c"
    and "str_includes c (js ''<script'')"
    and "str_includes c (js ''</body>'')"
    and "str_includes c (js ''</html>'')"
  shows "classify (renderHTML p) c = CompleteRichHTML
         \<and> setBotMessageRef p env c = renderIframe env c
         \<and> onMount p env c = renderIframe env c"
  using assms
  by (simp add: classify_def setBotMessageRef_def onMount_def isCompleteHTMLDocument_def
      needsIframeRendering_def)

theorem script_document_is_rich_witness:
  "truthy (renderHTML sample_props)
   \<and> isFullHTMLDocument (js ''<html><script></script></body></html>'')
   \<and> str_includes (js ''<html><script></script></body></html>'') (js ''<script'')
   \<and> str_includes (js ''<html><script></script></body></html>'') (js ''</body>'')
   \<and> str_includes (js ''<html><script></script></body></html>'') (js ''</html>'')
   \<and> classify (renderHTML sample_props) (js ''<html><script></script></body></html>'')
       = CompleteRichHTML"
proof -
  have h: "truthy (renderHTML sample_props)"
    "isFullHTMLDocument (js ''<html><script></script></body></html>'')"
    "str_includes (js ''<html><script></script></body></html>'') (js ''<script'')"
    "str_includes (js ''<html><script></script></body></html>'') (js ''</body>'')"
    "str_includes (js ''<html><script></script></body></html>'') (js ''</html>'')"
    by (simp_all add: sample_props_def string_eval)
  from script_document_is_rich [OF h] h show ?thesis by simp
qed

text \<open>
  C2: a content that does not open, after trimming, with a doctype or html tag
  (\<open>isFullHTMLDocument\<close> is false) is classified \<open>PlainMarkdown\<close> whatever else it
  contains and whatever \<open>renderHTML\<close> is, and both bubbles take the markdown branch.
\<close>

theorem not_full_document_is_markdown:
  assumes "\<not> isFullHTMLDocument c"
  shows "classify r c = PlainMarkdown
         \<and> setBotMessageRef p env c = renderMarkdown p env c
         \<and> ops (onMount p env c)
             = [SetInnerHTML (marked_parse env (sanitize_option (renderHTML p))
                                (agentHeaderMarkdown p @ c)),
                SetLinkTarget (js ''_blank'')]"
  using assms by (simp add: classify_def setBotMessageRef_def onMount_def)

theorem not_full_document_is_markdown_witness:
  "\<not> isFullHTMLDocument (js ''See <script></script></body></html>'')
   \<and> str_includes (js ''See <script></script></body></html>'') (js ''<script'')
   \<and> classify (Some True) (js ''See <script></script></body></html>'') = PlainMarkdown
   \<and> setBotMessageRef sample_props sample_env (js ''See <script></script></body></html>'')
       = renderMarkdown sample_props sample_env (js ''See <script></script></body></html>'')"
proof -
  have h: "\<not> isFullHTMLDocument (js ''See <script></script></body></html>'')"
    by (simp add: string_eval)
  have "str_includes (js ''See <script></script></body></html>'') (js ''<script'')"
    by (simp add: js_def)
  with not_full_document_is_markdown [OF h, of "Some True" sample_props sample_env] h
  show ?thesis by simp
qed


section \<open>The map key placeholder\<close>

lemma replaceMapKey_replaceAll:
  "replaceMapKey s = str_replaceAll s mapKeyPlaceholder mapKey"
  by (cases "str_includes s mapKeyPlaceholder") (simp_all add: replaceMapKey_def str_replaceAll_absent)

lemma replaceMapKey_clean: "\<not> str_includes (replaceMapKey s) mapKeyPlaceholder"
proof -
  have ne: "mapKeyPlaceholder \<noteq> []" "mapKey \<noteq> []"
    by (simp_all add: mapKey_def mapKeyPlaceholder_def js_def)
  show ?thesis
    unfolding replaceMapKey_replaceAll
    by (rule str_replaceAll_removes [OF ne mapKey_disjoint])
qed

lemma replaceMapKey_append:
  "a = [] \<or> b = [] \<or> last a \<notin> set mapKeyPlaceholder \<or> hd b \<notin> set mapKeyPlaceholder \<Longrightarrow>
     replaceMapKey (a @ b) = replaceMapKey a @ replaceMapKey b"
  unfolding replaceMapKey_replaceAll by (rule str_replaceAll_append)

lemma replaceMapKey_disjoint: "set s \<inter> set mapKeyPlaceholder = {} \<Longrightarrow> replaceMapKey s = s"
proof -
  assume d: "set s \<inter> set mapKeyPlaceholder = {}"
  have ne: "mapKeyPlaceholder \<noteq> []" by (simp add: mapKeyPlaceholder_def js_def)
  have "\<not> str_includes s mapKeyPlaceholder"
  proof
    assume "str_includes s mapKeyPlaceholder"
    then have "set mapKeyPlaceholder \<subseteq> set s" by (rule str_includes_set)
    moreover have "hd mapKeyPlaceholder \<in> set mapKeyPlaceholder" using ne by (rule hd_in_set)
    ultimately have "hd mapKeyPlaceholder \<in> set s \<inter> set mapKeyPlaceholder" by (simp add: subsetD)
    with d show False by (simp only: empty_iff)
  qed
  then show ?thesis by (simp add: replaceMapKey_def)
qed

text \<open>
  The stylesheet holds no capital letter and no underscore, the placeholder nothing
  else, so they share no code unit.
\<close>

lemma cssOverride_chars: "list_all (\<lambda>c. c < 65 \<or> (90 < c \<and> c \<noteq> 95)) cssOverride"
  by (simp add: cssOverride_def js_def)

lemma mapKeyPlaceholder_chars: "list_all (\<lambda>c. (65 \<le> c \<and> c \<le> 90) \<or> c = 95) mapKeyPlaceholder"
  by (simp add: mapKeyPlaceholder_def js_def)

lemma cssOverride_disjoint: "set cssOverride \<inter> set mapKeyPlaceholder = {}"
proof -
  have "\<And>c. c \<in> set cssOverride \<Longrightarrow> c \<notin> set mapKeyPlaceholder"
  proof
    fix c
    assume "c \<in> set cssOverride" and "c \<in> set mapKeyPlaceholder"
    then have "c < 65 \<or> (90 < c \<and> c \<noteq> 95)" and "(65 \<le> c \<and> c \<le> 90) \<or> c = 95"
      using cssOverride_chars mapKeyPlaceholder_chars by (simp_all add: list_all_iff)
    then show False by linarith
  qed
  then show ?thesis by blast
qed

lemma cssOverride_nonempty: "cssOverride \<noteq> []"
  by (simp add: cssOverride_def js_def)

lemma cssOverride_ends:
  "hd cssOverride \<notin> set mapKeyPlaceholder" "last cssOverride \<notin> set mapKeyPlaceholder"
proof -
  have "hd cssOverride \<in> set cssOverride" "last cssOverride \<in> set cssOverride"
    using cssOverride_nonempty by simp_all
  with cssOverride_disjoint show "hd cssOverride \<notin> set mapKeyPlaceholder"
    "last cssOverride \<notin> set mapKeyPlaceholder" by blast+
qed

lemma replaceMapKey_around:
  assumes "set m \<inter> set mapKeyPlaceholder = {}" and "m \<noteq> []"
  shows "replaceMapKey (a @ m @ b) = replaceMapKey a @ m @ replaceMapKey b"
proof -
  have "hd m \<in> set m" "last m \<in> set m" using assms(2) by simp_all
  with assms(1) have e: "hd m \<notin> set mapKeyPlaceholder" "last m \<notin> set mapKeyPlaceholder"
    by blast+
  have "hd (m @ b) = hd m" using assms(2) by simp
  with e(1) have "replaceMapKey (a @ (m @ b)) = replaceMapKey a @ replaceMapKey (m @ b)"
    by (intro replaceMapKey_append) simp
  moreover have "replaceMapKey (m @ b) = replaceMapKey m @ replaceMapKey b"
    using e(2) by (intro replaceMapKey_append) simp
  moreover have "replaceMapKey m = m" using assms(1) by (rule replaceMapKey_disjoint)
  ultimately show ?thesis by simp
qed

lemma tags_disjoint:
  "set (js ''</head>'') \<inter> set mapKeyPlaceholder = {}"
  "set (js ''</style>'') \<inter> set mapKeyPlaceholder = {}"
  "set (js ''<head>'') \<inter> set mapKeyPlaceholder = {}"
  by (simp_all add: mapKeyPlaceholder_def js_def)

lemma rich_ops:
  assumes "classify (renderHTML p) c = CompleteRichHTML" and "iframeDocAvailable env"
  shows "ops (setBotMessageRef p env c)
           = [SetInnerHTML [], AppendIframe, IframeWrite (replaceMapKey (insertCssOverride c))]"
    and "ops (onMount p env c)
           = [SetInnerHTML [], AppendIframe, IframeWrite (replaceMapKey (insertCssOverride c))]"
  using rich_branch [OF assms(1), of env] assms(2)
  by (simp_all add: renderIframe_def iframeDocument_def)

text \<open>
  C5: for a content rendered by the \<open>CompleteRichHTML\<close> strategy, what both bubbles do
  is to empty the element, append the iframe and (when the iframe's document is there)
  write one document into it: the content with the override stylesheet inserted and
  every occurrence of \<open>GOOGLE_MAP_KEY\<close> replaced by the key. No document written into
  the iframe contains \<open>GOOGLE_MAP_KEY\<close>.
\<close>

theorem iframe_document_without_placeholder:
  assumes "classify (renderHTML p) c = CompleteRichHTML"
  shows "ops (setBotMessageRef p env c)
           = [SetInnerHTML [], AppendIframe]
             @ (if iframeDocAvailable env
                then [IframeWrite (str_replaceAll (insertCssOverride c) mapKeyPlaceholder mapKey)]
                else [])
         \<and> ops (onMount p env c) = ops (setBotMessageRef p env c)
         \<and> (\<forall>written. IframeWrite written \<in> set (ops (setBotMessageRef p env c))
                         \<union> set (ops (onMount p env c))
               \<longrightarrow> \<not> str_includes written mapKeyPlaceholder)"
proof -
  have o: "ops (setBotMessageRef p env c)
           = [SetInnerHTML [], AppendIframe]
             @ (if iframeDocAvailable env
                then [IframeWrite (str_replaceAll (insertCssOverride c) mapKeyPlaceholder mapKey)]
                else [])"
    "ops (onMount p env c) = ops (setBotMessageRef p env c)"
    using rich_branch [OF assms, of env]
    by (simp_all add: renderIframe_def iframeDocument_def replaceMapKey_replaceAll)
  have cl: "\<not> str_includes (str_replaceAll (insertCssOverride c) mapKeyPlaceholder mapKey)
              mapKeyPlaceholder"
    using replaceMapKey_clean [of "insertCssOverride c"] by (simp add: replaceMapKey_replaceAll)
  have "\<forall>written. IframeWrite written \<in> set (ops (setBotMessageRef p env c))
                         \<union> set (ops (onMount p env c))
               \<longrightarrow> \<not> str_includes written mapKeyPlaceholder"
    unfolding o(2) o(1) using cl by (auto split: if_splits)
  with o show ?thesis by blast
qed

theorem iframe_document_without_placeholder_witness:
  "classify (renderHTML sample_props) (js ''<html><script>GOOGLE_MAP_KEY</script></body></html>'')
     = CompleteRichHTML
   \<and> str_includes (js ''<html><script>GOOGLE_MAP_KEY</script></body></html>'') mapKeyPlaceholder
   \<and> ops (setBotMessageRef sample_props sample_env
            (js ''<html><script>GOOGLE_MAP_KEY</script></body></html>''))
       = [SetInnerHTML [], AppendIframe,
          IframeWrite (cssOverride @ js ''<html><script>abc</script></body></html>'')]
   \<and> \<not> str_includes (cssOverride @ js ''<html><script>abc</script></body></html>'')
          mapKeyPlaceholder"
proof -
  let ?c = "js ''<html><script>GOOGLE_MAP_KEY</script></body></html>''"
  have h: "classify (renderHTML sample_props) ?c = CompleteRichHTML"
    by (simp add: classify_def sample_props_def string_eval)
  have i: "str_includes ?c mapKeyPlaceholder" by (simp add: mapKeyPlaceholder_def js_def)
  have ins: "insertCssOverride ?c = cssOverride @ ?c"
    by (simp add: insertCssOverride_def js_def)
  have "replaceMapKey ([] @ cssOverride @ ?c) = replaceMapKey [] @ cssOverride @ replaceMapKey ?c"
    using cssOverride_disjoint cssOverride_nonempty by (rule replaceMapKey_around)
  moreover have "replaceMapKey ?c = js ''<html><script>abc</script></body></html>''"
    by (simp add: replaceMapKey_def mapKeyPlaceholder_def mapKey_def js_def)
  moreover have "replaceMapKey [] = []" by (simp add: replaceMapKey_def)
  ultimately have w: "str_replaceAll (insertCssOverride ?c) mapKeyPlaceholder mapKey
                        = cssOverride @ js ''<html><script>abc</script></body></html>''"
    by (simp add: ins replaceMapKey_replaceAll)
  have av: "iframeDocAvailable sample_env" by (simp add: sample_env_def)
  from iframe_document_without_placeholder [OF h, of sample_env] av w h i show ?thesis by simp
qed


section \<open>Where the override stylesheet goes\<close>

lemma insert_after_last_style:
  assumes "\<not> str_includes c (js ''</head>'')" and "str_includes c (js ''</style>'')"
  shows "\<exists>pre post. c = pre @ js ''</style>'' @ post
           \<and> \<not> str_includes (tl (js ''</style>'') @ post) (js ''</style>'')
           \<and> insertCssOverride c = pre @ js ''</style>'' @ cssOverride @ post"
proof -
  have ne: "js ''</style>'' \<noteq> []" by (simp add: js_def)
  have len: "length (js ''</style>'') = 8" by (simp add: js_def)
  from last_occurrence_decomp [OF ne assms(2)] obtain pre post where
    d: "last_occurrence c (js ''</style>'') = Some (length pre)" "c = pre @ js ''</style>'' @ post"
       "\<not> str_includes (tl (js ''</style>'') @ post) (js ''</style>'')"
    by blast
  have idx: "str_lastIndexOf c (js ''</style>'') + 8 = int (length pre + 8)"
    using d(1) by (simp add: str_lastIndexOf_def)
  have "length c = length pre + 8 + length post"
    using len arg_cong [OF d(2), of length] by simp
  then have le: "length pre + 8 \<le> length c" by simp
  have t: "take (length pre + 8) c = pre @ js ''</style>''"
    using len by (subst d(2)) simp
  have dr: "drop (length pre + 8) c = post"
    using len by (subst d(2)) simp
  have "insertCssOverride c = pre @ js ''</style>'' @ cssOverride @ post"
    using assms by (simp add: insertCssOverride_def idx slice_to [OF le] slice_from [OF le] t dr del: of_nat_add)
  with d(2,3) show ?thesis by blast
qed

lemma insert_before_head_close:
  assumes "str_includes c (js ''</head>'')"
  shows "\<exists>pre post. c = pre @ js ''</head>'' @ post
           \<and> \<not> str_includes (pre @ butlast (js ''</head>'')) (js ''</head>'')
           \<and> insertCssOverride c = pre @ cssOverride @ js ''</head>'' @ post"
proof -
  have ne: "js ''</head>'' \<noteq> []" by (simp add: js_def)
  from str_replace_first [OF ne assms, of "cssOverride @ js ''</head>''"]
  show ?thesis using assms by (simp add: insertCssOverride_def)
qed

lemma insert_after_head_open:
  assumes "\<not> str_includes c (js ''</head>'')" and "\<not> str_includes c (js ''</style>'')"
    and "str_includes c (js ''<head>'')"
  shows "\<exists>pre post. c = pre @ js ''<head>'' @ post
           \<and> \<not> str_includes (pre @ butlast (js ''<head>'')) (js ''<head>'')
           \<and> insertCssOverride c = pre @ js ''<head>'' @ cssOverride @ post"
proof -
  have ne: "js ''<head>'' \<noteq> []" by (simp add: js_def)
  from str_replace_first [OF ne assms(3), of "js ''<head>'' @ cssOverride"]
  show ?thesis using assms by (simp add: insertCssOverride_def)
qed

text \<open>Where \<open>insertCssOverride\<close> puts the stylesheet, rule by rule.\<close>

lemma insertCssOverride_cases:
  "(str_includes c (js ''</head>'') \<longrightarrow>
      (\<exists>pre post. c = pre @ js ''</head>'' @ post
          \<and> \<not> str_includes (pre @ butlast (js ''</head>'')) (js ''</head>'')
          \<and> insertCssOverride c = pre @ cssOverride @ js ''</head>'' @ post))
   \<and> (\<not> str_includes c (js ''</head>'') \<and> str_includes c (js ''</style>'') \<longrightarrow>
      (\<exists>pre post. c = pre @ js ''</style>'' @ post
          \<and> \<not> str_includes (tl (js ''</style>'') @ post) (js ''</style>'')
          \<and> insertCssOverride c = pre @ js ''</style>'' @ cssOverride @ post))
   \<and> (\<not> str_includes c (js ''</head>'') \<and> \<not> str_includes c (js ''</style>'')
        \<and> str_includes c (js ''<head>'') \<longrightarrow>
      (\<exists>pre post. c = pre @ js ''<head>'' @ post
          \<and> \<not> str_includes (pre @ butlast (js ''<head>'')) (js ''<head>'')
          \<and> insertCssOverride c = pre @ js ''<head>'' @ cssOverride @ post))
   \<and> (\<not> str_includes c (js ''</head>'') \<and> \<not> str_includes c (js ''</style>'')
        \<and> \<not> str_includes c (js ''<head>'') \<longrightarrow>
      insertCssOverride c = cssOverride @ c)"
proof (intro conjI impI)
  assume "str_includes c (js ''</head>'')"
  then show "\<exists>pre post. c = pre @ js ''</head>'' @ post
          \<and> \<not> str_includes (pre @ butlast (js ''</head>'')) (js ''</head>'')
          \<and> insertCssOverride c = pre @ cssOverride @ js ''</head>'' @ post"
    by (rule insert_before_head_close)
next
  assume "\<not> str_includes c (js ''</head>'') \<and> str_includes c (js ''</style>'')"
  then show "\<exists>pre post. c = pre @ js ''</style>'' @ post
          \<and> \<not> str_includes (tl (js ''</style>'') @ post) (js ''</style>'')
          \<and> insertCssOverride c = pre @ js ''</style>'' @ cssOverride @ post"
    using insert_after_last_style by blast
next
  assume "\<not> str_includes c (js ''</head>'') \<and> \<not> str_includes c (js ''</style>'')
        \<and> str_includes c (js ''<head>'')"
  then show "\<exists>pre post. c = pre @ js ''<head>'' @ post
          \<and> \<not> str_includes (pre @ butlast (js ''<head>'')) (js ''<head>'')
          \<and> insertCssOverride c = pre @ js ''<head>'' @ cssOverride @ post"
    using insert_after_head_open by blast
next
  assume "\<not> str_includes c (js ''</head>'') \<and> \<not> str_includes c (js ''</style>'')
        \<and> \<not> str_includes c (js ''<head>'')"
  then show "insertCssOverride c = cssOverride @ c"
    by (simp add: insertCssOverride_def)
qed

lemma written_before_head_close:
  "replaceMapKey (pre @ cssOverride @ js ''</head>'' @ post)
     = replaceMapKey pre @ cssOverride @ js ''</head>'' @ replaceMapKey post"
  using replaceMapKey_around [of "cssOverride @ js ''</head>''" pre post]
    cssOverride_disjoint tags_disjoint(1) cssOverride_nonempty
  by (simp add: Int_Un_distrib2)

lemma written_after_style_close:
  "replaceMapKey (pre @ js ''</style>'' @ cssOverride @ post)
     = replaceMapKey pre @ js ''</style>'' @ cssOverride @ replaceMapKey post"
  using replaceMapKey_around [of "js ''</style>'' @ cssOverride" pre post]
    cssOverride_disjoint tags_disjoint(2) cssOverride_nonempty
  by (simp add: Int_Un_distrib2)

lemma written_after_head_open:
  "replaceMapKey (pre @ js ''<head>'' @ cssOverride @ post)
     = replaceMapKey pre @ js ''<head>'' @ cssOverride @ replaceMapKey post"
  using replaceMapKey_around [of "js ''<head>'' @ cssOverride" pre post]
    cssOverride_disjoint tags_disjoint(3) cssOverride_nonempty
  by (simp add: Int_Un_distrib2)

lemma written_in_front:
  "replaceMapKey (cssOverride @ c) = cssOverride @ replaceMapKey c"
  using replaceMapKey_around [of cssOverride "[]" c] cssOverride_disjoint cssOverride_nonempty
  by (simp add: replaceMapKey_def)

text \<open>
  C7: for a content rendered by the \<open>CompleteRichHTML\<close> strategy, the document that both
  bubbles write into the iframe holds the override stylesheet at the place given by the
  first rule that applies, in this order: immediately before \<open></head>\<close> (its first
  occurrence) if the content contains \<open></head>\<close>; otherwise immediately after the last
  \<open></style>\<close> if it contains \<open></style>\<close>; otherwise immediately after \<open><head>\<close> (its
  first occurrence) if it contains \<open><head>\<close>; otherwise in front of the whole content.
  Around the stylesheet the document is the content with the map key placeholder
  replaced.
\<close>

theorem css_override_insertion_order:
  assumes "classify (renderHTML p) c = CompleteRichHTML" and "iframeDocAvailable env"
  shows "\<exists>written.
           ops (setBotMessageRef p env c) = [SetInnerHTML [], AppendIframe, IframeWrite written]
         \<and> ops (onMount p env c) = [SetInnerHTML [], AppendIframe, IframeWrite written]
         \<and> (str_includes c (js ''</head>'') \<longrightarrow>
              (\<exists>pre post. c = pre @ js ''</head>'' @ post
                  \<and> \<not> str_includes (pre @ butlast (js ''</head>'')) (js ''</head>'')
                  \<and> written = replaceMapKey pre @ cssOverride @ js ''</head>'' @ replaceMapKey post))
         \<and> (\<not> str_includes c (js ''</head>'') \<and> str_includes c (js ''</style>'') \<longrightarrow>
              (\<exists>pre post. c = pre @ js ''</style>'' @ post
                  \<and> \<not> str_includes (tl (js ''</style>'') @ post) (js ''</style>'')
                  \<and> written = replaceMapKey pre @ js ''</style>'' @ cssOverride @ replaceMapKey post))
         \<and> (\<not> str_includes c (js ''</head>'') \<and> \<not> str_includes c (js ''</style>'')
              \<and> str_includes c (js ''<head>'') \<longrightarrow>
              (\<exists>pre post. c = pre @ js ''<head>'' @ post
                  \<and> \<not> str_includes (pre @ butlast (js ''<head>'')) (js ''<head>'')
                  \<and> written = replaceMapKey pre @ js ''<head>'' @ cssOverride @ replaceMapKey post))
         \<and> (\<not> str_includes c (js ''</head>'') \<and> \<not> str_includes c (js ''</style>'')
              \<and> \<not> str_includes c (js ''<head>'') \<longrightarrow>
              written = cssOverride @ replaceMapKey c)"
proof (rule exI [of _ "replaceMapKey (insertCssOverride c)"], intro conjI impI)
  show "ops (setBotMessageRef p env c)
          = [SetInnerHTML [], AppendIframe, IframeWrite (replaceMapKey (insertCssOverride c))]"
    by (rule rich_ops(1) [OF assms])
  show "ops (onMount p env c)
          = [SetInnerHTML [], AppendIframe, IframeWrite (replaceMapKey (insertCssOverride c))]"
    by (rule rich_ops(2) [OF assms])
next
  assume "str_includes c (js ''</head>'')"
  with insertCssOverride_cases [of c] obtain pre post where
    d: "c = pre @ js ''</head>'' @ post"
       "\<not> str_includes (pre @ butlast (js ''</head>'')) (js ''</head>'')"
       "insertCssOverride c = pre @ cssOverride @ js ''</head>'' @ post"
    by blast
  from d(3) have "replaceMapKey (insertCssOverride c)
                    = replaceMapKey pre @ cssOverride @ js ''</head>'' @ replaceMapKey post"
    by (simp only: written_before_head_close)
  with d(1,2) show "\<exists>pre post. c = pre @ js ''</head>'' @ post
                  \<and> \<not> str_includes (pre @ butlast (js ''</head>'')) (js ''</head>'')
                  \<and> replaceMapKey (insertCssOverride c)
                      = replaceMapKey pre @ cssOverride @ js ''</head>'' @ replaceMapKey post"
    by blast
next
  assume "\<not> str_includes c (js ''</head>'') \<and> str_includes c (js ''</style>'')"
  with insertCssOverride_cases [of c] obtain pre post where
    d: "c = pre @ js ''</style>'' @ post"
       "\<not> str_includes (tl (js ''</style>'') @ post) (js ''</style>'')"
       "insertCssOverride c = pre @ js ''</style>'' @ cssOverride @ post"
    by blast
  from d(3) have "replaceMapKey (insertCssOverride c)
                    = replaceMapKey pre @ js ''</style>'' @ cssOverride @ replaceMapKey post"
    by (simp only: written_after_style_close)
  with d(1,2) show "\<exists>pre post. c = pre @ js ''</style>'' @ post
                  \<and> \<not> str_includes (tl (js ''</style>'') @ post) (js ''</style>'')
                  \<and> replaceMapKey (insertCssOverride c)
                      = replaceMapKey pre @ js ''</style>'' @ cssOverride @ replaceMapKey post"
    by blast
next
  assume "\<not> str_includes c (js ''</head>'') \<and> \<not> str_includes c (js ''</style>'')
              \<and> str_includes c (js ''<head>'')"
  with insertCssOverride_cases [of c] obtain pre post where
    d: "c = pre @ js ''<head>'' @ post"
       "\<not> str_includes (pre @ butlast (js ''<head>'')) (js ''<head>'')"
       "insertCssOverride c = pre @ js ''<head>'' @ cssOverride @ post"
    by blast
  from d(3) have "replaceMapKey (insertCssOverride c)
                    = replaceMapKey pre @ js ''<head>'' @ cssOverride @ replaceMapKey post"
    by (simp only: written_after_head_open)
  with d(1,2) show "\<exists>pre post. c = pre @ js ''<head>'' @ post
                  \<and> \<not> str_includes (pre @ butlast (js ''<head>'')) (js ''<head>'')
                  \<and> replaceMapKey (insertCssOverride c)
                      = replaceMapKey pre @ js ''<head>'' @ cssOverride @ replaceMapKey post"
    by blast
next
  assume "\<not> str_includes c (js ''</head>'') \<and> \<not> str_includes c (js ''</style>'')
              \<and> \<not> str_includes c (js ''<head>'')"
  with insertCssOverride_cases [of c] have "insertCssOverride c = cssOverride @ c" by blast
  then show "replaceMapKey (insertCssOverride c) = cssOverride @ replaceMapKey c"
    by (simp only: written_in_front)
qed

theorem css_override_insertion_order_witness:
  "iframeDocAvailable sample_env
   \<and> classify (renderHTML sample_props) (js ''<html><head></head><script></script></body></html>'')
       = CompleteRichHTML
   \<and> str_includes (js ''<html><head></head><script></script></body></html>'') (js ''</head>'')
   \<and> (\<exists>written pre post.
          ops (setBotMessageRef sample_props sample_env
                 (js ''<html><head></head><script></script></body></html>''))
            = [SetInnerHTML [], AppendIframe, IframeWrite written]
          \<and> js ''<html><head></head><script></script></body></html>'' = pre @ js ''</head>'' @ post
          \<and> written = replaceMapKey pre @ cssOverride @ js ''</head>'' @ replaceMapKey post)
   \<and> classify (renderHTML sample_props) (js ''<html><style>a</style><script></script></body></html>'')
       = CompleteRichHTML
   \<and> \<not> str_includes (js ''<html><style>a</style><script></script></body></html>'') (js ''</head>'')
   \<and> str_includes (js ''<html><style>a</style><script></script></body></html>'') (js ''</style>'')
   \<and> (\<exists>written pre post.
          ops (setBotMessageRef sample_props sample_env
                 (js ''<html><style>a</style><script></script></body></html>''))
            = [SetInnerHTML [], AppendIframe, IframeWrite written]
          \<and> js ''<html><style>a</style><script></script></body></html>'' = pre @ js ''</style>'' @ post
          \<and> written = replaceMapKey pre @ js ''</style>'' @ cssOverride @ replaceMapKey post)
   \<and> classify (renderHTML sample_props) (js ''<html><head><script></script></body></html>'')
       = CompleteRichHTML
   \<and> \<not> str_includes (js ''<html><head><script></script></body></html>'') (js ''</head>'')
   \<and> \<not> str_includes (js ''<html><head><script></script></body></html>'') (js ''</style>'')
   \<and> str_includes (js ''<html><head><script></script></body></html>'') (js ''<head>'')
   \<and> (\<exists>written pre post.
          ops (setBotMessageRef sample_props sample_env
                 (js ''<html><head><script></script></body></html>''))
            = [SetInnerHTML [], AppendIframe, IframeWrite written]
          \<and> js ''<html><head><script></script></body></html>'' = pre @ js ''<head>'' @ post
          \<and> written = replaceMapKey pre @ js ''<head>'' @ cssOverride @ replaceMapKey post)
   \<and> classify (renderHTML sample_props) (js ''<html><script></script></body></html>'')
       = CompleteRichHTML
   \<and> \<not> str_includes (js ''<html><script></script></body></html>'') (js ''</head>'')
   \<and> \<not> str_includes (js ''<html><script></script></body></html>'') (js ''</style>'')
   \<and> \<not> str_includes (js ''<html><script></script></body></html>'') (js ''<head>'')
   \<and> ops (setBotMessageRef sample_props sample_env (js ''<html><script></script></body></html>''))
       = [SetInnerHTML [], AppendIframe,
          IframeWrite (cssOverride @ replaceMapKey (js ''<html><script></script></body></html>''))]"
proof -
  have av: "iframeDocAvailable sample_env" by (simp add: sample_env_def)
  have c1: "classify (renderHTML sample_props) (js ''<html><head></head><script></script></body></html>'')
       = CompleteRichHTML"
    by (simp add: classify_def sample_props_def string_eval)
  have i1: "str_includes (js ''<html><head></head><script></script></body></html>'') (js ''</head>'')"
    by (simp add: js_def)
  have c2: "classify (renderHTML sample_props) (js ''<html><style>a</style><script></script></body></html>'')
       = CompleteRichHTML"
    by (simp add: classify_def sample_props_def string_eval)
  have i2: "\<not> str_includes (js ''<html><style>a</style><script></script></body></html>'') (js ''</head>'')"
    "str_includes (js ''<html><style>a</style><script></script></body></html>'') (js ''</style>'')"
    by (simp_all add: js_def)
  have c3: "classify (renderHTML sample_props) (js ''<html><head><script></script></body></html>'')
       = CompleteRichHTML"
    by (simp add: classify_def sample_props_def string_eval)
  have i3: "\<not> str_includes (js ''<html><head><script></script></body></html>'') (js ''</head>'')"
    "\<not> str_includes (js ''<html><head><script></script></body></html>'') (js ''</style>'')"
    "str_includes (js ''<html><head><script></script></body></html>'') (js ''<head>'')"
    by (simp_all add: js_def)
  have c4: "classify (renderHTML sample_props) (js ''<html><script></script></body></html>'')
       = CompleteRichHTML"
    by (simp add: classify_def sample_props_def string_eval)
  have i4: "\<not> str_includes (js ''<html><script></script></body></html>'') (js ''</head>'')"
    "\<not> str_includes (js ''<html><script></script></body></html>'') (js ''</style>'')"
    "\<not> str_includes (js ''<html><script></script></body></html>'') (js ''<head>'')"
    by (simp_all add: js_def)
  have w1: "\<exists>written pre post.
          ops (setBotMessageRef sample_props sample_env
                 (js ''<html><head></head><script></script></body></html>''))
            = [SetInnerHTML [], AppendIframe, IframeWrite written]
          \<and> js ''<html><head></head><script></script></body></html>'' = pre @ js ''</head>'' @ post
          \<and> written = replaceMapKey pre @ cssOverride @ js ''</head>'' @ replaceMapKey post"
    using css_override_insertion_order [OF c1 av] i1 by blast
  have w2: "\<exists>written pre post.
          ops (setBotMessageRef sample_props sample_env
                 (js ''<html><style>a</style><script></script></body></html>''))
            = [SetInnerHTML [], AppendIframe, IframeWrite written]
          \<and> js ''<html><style>a</style><script></script></body></html>'' = pre @ js ''</style>'' @ post
          \<and> written = replaceMapKey pre @ js ''</style>'' @ cssOverride @ replaceMapKey post"
    using css_override_insertion_order [OF c2 av] i2 by blast
  have w3: "\<exists>written pre post.
          ops (setBotMessageRef sample_props sample_env
                 (js ''<html><head><script></script></body></html>''))
            = [SetInnerHTML [], AppendIframe, IframeWrite written]
          \<and> js ''<html><head><script></script></body></html>'' = pre @ js ''<head>'' @ post
          \<and> written = replaceMapKey pre @ js ''<head>'' @ cssOverride @ replaceMapKey post"
    using css_override_insertion_order [OF c3 av] i3 by blast
  have w4: "ops (setBotMessageRef sample_props sample_env (js ''<html><script></script></body></html>''))
       = [SetInnerHTML [], AppendIframe,
          IframeWrite (cssOverride @ replaceMapKey (js ''<html><script></script></body></html>''))]"
    using css_override_insertion_order [OF c4 av] i4 by auto
  show ?thesis
    apply (rule conjI [OF av])
    apply (rule conjI [OF c1])
    apply (rule conjI [OF i1])
    apply (rule conjI [OF w1])
    apply (rule conjI [OF c2])
    apply (rule conjI [OF i2(1)])
    apply (rule conjI [OF i2(2)])
    apply (rule conjI [OF w2])
    apply (rule conjI [OF c3])
    apply (rule conjI [OF i3(1)])
    apply (rule conjI [OF i3(2)])
    apply (rule conjI [OF i3(3)])
    apply (rule conjI [OF w3])
    apply (rule conjI [OF c4])
    apply (rule conjI [OF i4(1)])
    apply (rule conjI [OF i4(2)])
    apply (rule conjI [OF i4(3)])
    apply (rule w4)
    done
qed


section \<open>Incomplete documents: what is shown\<close>

lemma loading_no_markup:
  "\<not> str_includes loadingPlaceholder (js ''<script>'')"
  "\<not> str_includes loadingPlaceholder (js ''<html'')"
  by (simp_all add: loadingPlaceholder_def js_def hourglass_def)

text \<open>
  C4, as stated, fails in its last part: the text that the parser extracts may itself
  spell \<open><script>\<close>. For the streamed content \<open><html><body>&lt;script&gt;\<close> the
  extracted text is \<open><script>\<close>, and the bubble shows it, followed by the glyph.
\<close>

theorem incomplete_html_shows_escaped_script:
  "classify (Some True) (js ''<html><body>&lt;script&gt;'') = IncompleteHTML
   \<and> ops (setBotMessageRef sample_props
             (sample_env\<lparr>parseFromString := escaped_script_parser\<rparr>)
             (js ''<html><body>&lt;script&gt;''))
       = [SetTextContent (js ''<script> '' @ [hourglass])]
   \<and> str_includes (js ''<script> '' @ [hourglass]) (js ''<script>'')"
  by (simp add: classify_def setBotMessageRef_def renderIncompleteHTML_def
      extractTextFromIncompleteHTML_def sample_props_def sample_env_def escaped_script_parser_def
      or_else_def hourglass_def string_eval)

lemma shown_includes_iff:
  assumes "p \<noteq> []" and "last p \<notin> set (js '' '' @ [hourglass])"
    and "\<not> str_includes loadingPlaceholder p"
  shows "str_includes (if shown \<noteq> [] then shown @ js '' '' @ [hourglass] else loadingPlaceholder) p
           \<longleftrightarrow> str_includes shown p"
proof (cases "shown = []")
  case True
  then show ?thesis using assms(1,3) by simp
next
  case False
  have "str_includes (shown @ js '' '' @ [hourglass]) p \<longleftrightarrow> str_includes shown p"
    using str_includes_append_right [OF assms(1,2)] str_includes_appendI by blast
  with False show ?thesis by simp
qed

text \<open>
  C4, amended: for a content classified \<open>IncompleteHTML\<close> the bot bubble sets as its text
  exactly the trimmed extracted text followed by a space and the hourglass when that
  text is not empty, and exactly \<open>Loading content...\<close> with the hourglass otherwise (also
  when the parser raises). What is shown contains \<open><script>\<close>, or \<open><html\<close>, exactly
  when the trimmed extracted text contains it.
\<close>

theorem incomplete_html_visible_output:
  assumes "classify (renderHTML p) c = IncompleteHTML"
  shows "setBotMessageRef p env c
           = \<lparr>ops = [SetTextContent (extractTextFromIncompleteHTML env c)], warnings = []\<rparr>
         \<and> (\<forall>e. parseFromString env c = Inl e \<longrightarrow>
               extractTextFromIncompleteHTML env c = js ''Loading content... '' @ [hourglass])
         \<and> (\<forall>doc. parseFromString env c = Inr doc \<longrightarrow>
               (let shown = str_trim (or_else (map_option textContent (body doc)) [])
                in extractTextFromIncompleteHTML env c
                     = (if shown \<noteq> [] then shown @ js '' '' @ [hourglass]
                        else js ''Loading content... '' @ [hourglass])
                   \<and> (str_includes (extractTextFromIncompleteHTML env c) (js ''<script>'')
                        \<longleftrightarrow> str_includes shown (js ''<script>''))
                   \<and> (str_includes (extractTextFromIncompleteHTML env c) (js ''<html'')
                        \<longleftrightarrow> str_includes shown (js ''<html''))))"
proof -
  have a: "setBotMessageRef p env c
           = \<lparr>ops = [SetTextContent (extractTextFromIncompleteHTML env c)], warnings = []\<rparr>"
    using incomplete_branch [OF assms] by (simp add: renderIncompleteHTML_def)
  have b: "\<forall>e. parseFromString env c = Inl e \<longrightarrow>
               extractTextFromIncompleteHTML env c = js ''Loading content... '' @ [hourglass]"
    by (simp add: extractTextFromIncompleteHTML_def loadingPlaceholder_def)
  have c: "\<forall>doc. parseFromString env c = Inr doc \<longrightarrow>
               (let shown = str_trim (or_else (map_option textContent (body doc)) [])
                in extractTextFromIncompleteHTML env c
                     = (if shown \<noteq> [] then shown @ js '' '' @ [hourglass]
                        else js ''Loading content... '' @ [hourglass])
                   \<and> (str_includes (extractTextFromIncompleteHTML env c) (js ''<script>'')
                        \<longleftrightarrow> str_includes shown (js ''<script>''))
                   \<and> (str_includes (extractTextFromIncompleteHTML env c) (js ''<html'')
                        \<longleftrightarrow> str_includes shown (js ''<html'')))"
  proof (intro allI impI)
    fix doc
    assume pr: "parseFromString env c = Inr doc"
    define shown where "shown = str_trim (or_else (map_option textContent (body doc)) [])"
    have out: "extractTextFromIncompleteHTML env c
                 = (if shown \<noteq> [] then shown @ js '' '' @ [hourglass] else loadingPlaceholder)"
      by (simp add: extractTextFromIncompleteHTML_def pr shown_def Let_def)
    have n1: "js ''<script>'' \<noteq> []" "last (js ''<script>'') \<notin> set (js '' '' @ [hourglass])"
      by (simp_all add: js_def hourglass_def)
    have n2: "js ''<html'' \<noteq> []" "last (js ''<html'') \<notin> set (js '' '' @ [hourglass])"
      by (simp_all add: js_def hourglass_def)
    have s1: "str_includes (extractTextFromIncompleteHTML env c) (js ''<script>'')
                \<longleftrightarrow> str_includes shown (js ''<script>'')"
      unfolding out by (rule shown_includes_iff [OF n1 loading_no_markup(1)])
    have s2: "str_includes (extractTextFromIncompleteHTML env c) (js ''<html'')
                \<longleftrightarrow> str_includes shown (js ''<html'')"
      unfolding out by (rule shown_includes_iff [OF n2 loading_no_markup(2)])
    show "(let shown = str_trim (or_else (map_option textContent (body doc)) [])
                in extractTextFromIncompleteHTML env c
                     = (if shown \<noteq> [] then shown @ js '' '' @ [hourglass]
                        else js ''Loading content... '' @ [hourglass])
                   \<and> (str_includes (extractTextFromIncompleteHTML env c) (js ''<script>'')
                        \<longleftrightarrow> str_includes shown (js ''<script>''))
                   \<and> (str_includes (extractTextFromIncompleteHTML env c) (js ''<html'')
                        \<longleftrightarrow> str_includes shown (js ''<html'')))"
      unfolding Let_def shown_def [symmetric]
      using s1 s2 out by (simp add: loadingPlaceholder_def)
  qed
  show ?thesis
    apply (rule conjI [OF a])
    apply (rule conjI [OF b])
    apply (rule c)
    done
qed

theorem incomplete_html_visible_output_witness:
  "classify (renderHTML sample_props) (js ''<html><body>&lt;script&gt;'') = IncompleteHTML
   \<and> parseFromString (sample_env\<lparr>parseFromString := escaped_script_parser\<rparr>)
         (js ''<html><body>&lt;script&gt;'')
       = Inr \<lparr>body = Some \<lparr>innerHTML = js ''&lt;script&gt;'', textContent = js ''<script>''\<rparr>\<rparr>
   \<and> setBotMessageRef sample_props (sample_env\<lparr>parseFromString := escaped_script_parser\<rparr>)
         (js ''<html><body>&lt;script&gt;'')
       = \<lparr>ops = [SetTextContent (js ''<script>'' @ js '' '' @ [hourglass])], warnings = []\<rparr>
   \<and> parseFromString sample_env (js ''<html><body>&lt;script&gt;'')
       = Inl (JsError (js ''parse error''))
   \<and> setBotMessageRef sample_props sample_env (js ''<html><body>&lt;script&gt;'')
       = \<lparr>ops = [SetTextContent (js ''Loading content... '' @ [hourglass])], warnings = []\<rparr>"
proof -
  have h: "classify (renderHTML sample_props) (js ''<html><body>&lt;script&gt;'') = IncompleteHTML"
    by (simp add: classify_def sample_props_def string_eval)
  have p1: "parseFromString (sample_env\<lparr>parseFromString := escaped_script_parser\<rparr>)
         (js ''<html><body>&lt;script&gt;'')
       = Inr \<lparr>body = Some \<lparr>innerHTML = js ''&lt;script&gt;'', textContent = js ''<script>''\<rparr>\<rparr>"
    by (simp add: escaped_script_parser_def)
  have p2: "parseFromString sample_env (js ''<html><body>&lt;script&gt;'')
       = Inl (JsError (js ''parse error''))"
    by (simp add: sample_env_def failing_parser_def)
  have t: "str_trim (js ''<script>'') = js ''<script>''" "js ''<script>'' \<noteq> []"
    by (simp_all add: js_def str_trim_def isWhiteSpace_def)
  from incomplete_html_visible_output [OF h, of "sample_env\<lparr>parseFromString := escaped_script_parser\<rparr>"]
       incomplete_html_visible_output [OF h, of sample_env] h p1 p2
  show ?thesis
    by (simp add: or_else_def t Let_def)
qed


section \<open>Complete documents without scripts\<close>

text \<open>
  C8: with \<open>renderHTML\<close> enabled and a parser that returns the body of
  \<open><html><body><p>hi</p></body></html>\<close>, this content is classified
  \<open>CompleteSimpleHTML\<close> and the bot bubble injects exactly the inner content of the body,
  \<open><p>hi</p>\<close>, then colours the text elements and opens links in a new tab; no html or
  body tag is part of what is injected.
\<close>

theorem simple_html_round_trip:
  assumes "truthy (renderHTML p)"
    and "parseFromString env (js ''<html><body><p>hi</p></body></html>'') = Inr d"
    and "map_option innerHTML (body d) = Some (js ''<p>hi</p>'')"
  shows "classify (renderHTML p) (js ''<html><body><p>hi</p></body></html>'') = CompleteSimpleHTML
         \<and> setBotMessageRef p env (js ''<html><body><p>hi</p></body></html>'')
             = \<lparr>ops = [SetInnerHTML (js ''<p>hi</p>''),
                       SetColor (js ''a, h1, h2, h3, h4, h5, h6, strong, em, blockquote, li, p'')
                         (case textColor p of None \<Rightarrow> js ''#303235'' | Some col \<Rightarrow> col),
                       SetLinkTarget (js ''_blank'')],
                warnings = []\<rparr>
         \<and> \<not> str_includes (js ''<p>hi</p>'') (js ''<html'')
         \<and> \<not> str_includes (js ''<p>hi</p>'') (js ''<body'')
         \<and> \<not> str_includes (js ''<p>hi</p>'') (js ''</body>'')
         \<and> \<not> str_includes (js ''<p>hi</p>'') (js ''</html>'')"
proof -
  have cl: "classify (renderHTML p) (js ''<html><body><p>hi</p></body></html>'') = CompleteSimpleHTML"
    using assms(1) by (simp add: classify_def string_eval)
  have ne: "js ''<p>hi</p>'' \<noteq> []" by (simp add: js_def)
  have oe: "or_else (map_option innerHTML (body d)) (js ''<html><body><p>hi</p></body></html>'')
              = js ''<p>hi</p>''"
    using assms(3) ne by (auto simp: or_else_def)
  have sel: "headingSelector @ js '', p''
               = js ''a, h1, h2, h3, h4, h5, h6, strong, em, blockquote, li, p''"
    by (simp add: headingSelector_def js_def)
  have r: "renderSimpleHTML p env (js ''<html><body><p>hi</p></body></html>'')
             = \<lparr>ops = [SetInnerHTML (js ''<p>hi</p>''),
                       SetColor (js ''a, h1, h2, h3, h4, h5, h6, strong, em, blockquote, li, p'')
                         (case textColor p of None \<Rightarrow> js ''#303235'' | Some col \<Rightarrow> col),
                       SetLinkTarget (js ''_blank'')],
                warnings = []\<rparr>"
    by (simp add: renderSimpleHTML_def assms(2) oe sel defaultTextColor_def split: option.split)
  have n: "\<not> str_includes (js ''<p>hi</p>'') (js ''<html'')"
    "\<not> str_includes (js ''<p>hi</p>'') (js ''<body'')"
    "\<not> str_includes (js ''<p>hi</p>'') (js ''</body>'')"
    "\<not> str_includes (js ''<p>hi</p>'') (js ''</html>'')"
    by (simp_all add: js_def)
  from simple_branch [OF cl] r cl n show ?thesis by simp
qed

theorem simple_html_round_trip_witness:
  "truthy (renderHTML sample_props)
   \<and> parseFromString (sample_env\<lparr>parseFromString := paragraph_parser\<rparr>)
         (js ''<html><body><p>hi</p></body></html>'')
       = Inr \<lparr>body = Some \<lparr>innerHTML = js ''<p>hi</p>'', textContent = js ''hi''\<rparr>\<rparr>
   \<and> ops (setBotMessageRef sample_props (sample_env\<lparr>parseFromString := paragraph_parser\<rparr>)
            (js ''<html><body><p>hi</p></body></html>''))
       = [SetInnerHTML (js ''<p>hi</p>''),
          SetColor (js ''a, h1, h2, h3, h4, h5, h6, strong, em, blockquote, li, p'') (js ''#303235''),
          SetLinkTarget (js ''_blank'')]"
proof -
  have h: "truthy (renderHTML sample_props)"
    "parseFromString (sample_env\<lparr>parseFromString := paragraph_parser\<rparr>)
         (js ''<html><body><p>hi</p></body></html>'')
       = Inr \<lparr>body = Some \<lparr>innerHTML = js ''<p>hi</p>'', textContent = js ''hi''\<rparr>\<rparr>"
    "map_option innerHTML (body \<lparr>body = Some \<lparr>innerHTML = js ''<p>hi</p>'', textContent = js ''hi''\<rparr>\<rparr>)
       = Some (js ''<p>hi</p>'')"
    by (simp_all add: sample_props_def sample_env_def paragraph_parser_def truthy_def)
  from simple_html_round_trip [OF h] h(1,2) show ?thesis
    by (simp add: sample_props_def)
qed












text \<open>
  C10: on the \<open>CompleteSimpleHTML\<close> path, when the parser succeeds but the document has
  no body or the inner content of the body is empty, the whole original content is
  injected (in the agent bubble behind the agent's header); only for a body with
  non-empty inner content is that inner content injected.
\<close>

theorem empty_body_injects_whole_document:
  assumes "classify (renderHTML p) c = CompleteSimpleHTML"
    and "parseFromString env c = Inr d"
  shows "(body d = None \<or> map_option innerHTML (body d) = Some [] \<longrightarrow>
            ops (setBotMessageRef p env c)
              = [SetInnerHTML c,
                 SetColor (headingSelector @ js '', p'')
                   (case textColor p of None \<Rightarrow> defaultTextColor | Some col \<Rightarrow> col),
                 SetLinkTarget (js ''_blank'')]
            \<and> ops (onMount p env c)
              = [SetInnerHTML (agentHeaderHTML p @ c), SetLinkTarget (js ''_blank'')])
         \<and> (\<forall>b. body d = Some b \<and> innerHTML b \<noteq> [] \<longrightarrow>
            ops (setBotMessageRef p env c)
              = [SetInnerHTML (innerHTML b),
                 SetColor (headingSelector @ js '', p'')
                   (case textColor p of None \<Rightarrow> defaultTextColor | Some col \<Rightarrow> col),
                 SetLinkTarget (js ''_blank'')]
            \<and> ops (onMount p env c)
              = [SetInnerHTML (agentHeaderHTML p @ innerHTML b), SetLinkTarget (js ''_blank'')])"
  using simple_branch [OF assms(1), of env] assms(2)
  by (auto simp: renderSimpleHTML_def agentSimpleHTML_def or_else_def Let_def)

theorem empty_body_injects_whole_document_witness:
  "classify (renderHTML sample_props) (js ''<html><body></body></html>'') = CompleteSimpleHTML
   \<and> parseFromString (sample_env\<lparr>parseFromString := empty_body_parser\<rparr>)
         (js ''<html><body></body></html>'')
       = Inr \<lparr>body = Some \<lparr>innerHTML = [], textContent = []\<rparr>\<rparr>
   \<and> ops (setBotMessageRef sample_props (sample_env\<lparr>parseFromString := empty_body_parser\<rparr>)
            (js ''<html><body></body></html>''))
       = [SetInnerHTML (js ''<html><body></body></html>''),
          SetColor (headingSelector @ js '', p'') defaultTextColor,
          SetLinkTarget (js ''_blank'')]
   \<and> classify (renderHTML sample_props) (js ''<html><body><p>hi</p></body></html>'') = CompleteSimpleHTML
   \<and> ops (setBotMessageRef sample_props (sample_env\<lparr>parseFromString := paragraph_parser\<rparr>)
            (js ''<html><body><p>hi</p></body></html>''))
       = [SetInnerHTML (js ''<p>hi</p>''),
          SetColor (headingSelector @ js '', p'') defaultTextColor,
          SetLinkTarget (js ''_blank'')]"
proof -
  have h1: "classify (renderHTML sample_props) (js ''<html><body></body></html>'') = CompleteSimpleHTML"
    by (simp add: classify_def sample_props_def string_eval)
  have p1: "parseFromString (sample_env\<lparr>parseFromString := empty_body_parser\<rparr>)
         (js ''<html><body></body></html>'')
       = Inr \<lparr>body = Some \<lparr>innerHTML = [], textContent = []\<rparr>\<rparr>"
    by (simp add: empty_body_parser_def)
  have h2: "classify (renderHTML sample_props) (js ''<html><body><p>hi</p></body></html>'') = CompleteSimpleHTML"
    by (simp add: classify_def sample_props_def string_eval)
  have p2: "parseFromString (sample_env\<lparr>parseFromString := paragraph_parser\<rparr>)
         (js ''<html><body><p>hi</p></body></html>'')
       = Inr \<lparr>body = Some \<lparr>innerHTML = js ''<p>hi</p>'', textContent = js ''hi''\<rparr>\<rparr>"
    by (simp add: paragraph_parser_def)
  have ne: "js ''<p>hi</p>'' \<noteq> []" by (simp add: js_def)
  from empty_body_injects_whole_document [OF h1 p1]
       empty_body_injects_whole_document [OF h2 p2] h1 p1 h2 ne
  show ?thesis by (simp add: sample_props_def)
qed


section \<open>Image artifacts: the source of the image\<close>

lemma storagePrefix_length: "length storagePrefix = 14" "storagePrefix \<noteq> []"
  by (simp_all add: storagePrefix_def js_def)

lemma bot_image_with_prefix:
  "str_startsWith (upload_data item) storagePrefix \<Longrightarrow>
     botImageSrc p item = uploadFileUrl p (drop 14 (upload_data item))"
  by (simp add: botImageSrc_def str_replace_prefix storagePrefix_length)

lemma bot_image_without_prefix:
  "\<not> str_startsWith (upload_data item) storagePrefix \<Longrightarrow> botImageSrc p item = upload_data item"
  by (simp add: botImageSrc_def)

lemma agent_image_with_prefix:
  "isImage item \<Longrightarrow> str_startsWith (upload_data item) storagePrefix \<Longrightarrow>
     map (map_option agentImageSrc) (agentReasoningArtifacts p [Some item])
       = [Some (uploadFileUrl p (drop 14 (upload_data item)))]"
  by (simp add: agentReasoningArtifacts_def agentImageSrc_def str_replace_prefix storagePrefix_length)

text \<open>
  C3 holds for the bot bubble (the two lemmas above) and, for data with the prefix, for
  the agent bubble. For data without the prefix the agent bubble does not pass the data
  through: \<open>agentReasoningArtifacts\<close> builds a download URL from every image. Here the
  two bubbles are run on an image given as a data URL.
\<close>

theorem agent_image_without_prefix_is_rewritten:
  "isImage inline_image
   \<and> \<not> str_startsWith (upload_data inline_image) storagePrefix
   \<and> botImageSrc sample_props inline_image = js ''data:image/png;base64,AAAA''
   \<and> map (map_option agentImageSrc) (agentReasoningArtifacts sample_props [Some inline_image])
       = [Some (js ''https://host/api/v1/get-upload-file?chatflowId=flow&chatId=chat&fileName=data:image/png;base64,AAAA'')]"
  by (simp add: inline_image_def isImage_def storagePrefix_def botImageSrc_def
      agentReasoningArtifacts_def agentImageSrc_def uploadFileUrl_def template_string_def
      sample_props_def js_def)


section \<open>Feedback: the rating is set once\<close>

lemma saveToLocalStorage_rating [simp]: "rating (saveToLocalStorage mid r st) = rating st"
  by (simp add: saveToLocalStorage_def split: option.splits)

lemma click_noop: "rating st \<noteq> [] \<Longrightarrow> onThumbsUpClick st = st \<and> onThumbsDownClick st = st"
  by (simp add: onThumbsUpClick_def onThumbsDownClick_def)

lemma thumbs_nonempty: "js ''THUMBS_UP'' \<noteq> []" "js ''THUMBS_DOWN'' \<noteq> []"
  by (simp_all add: js_def)

lemma step_keeps_rated: "rating st \<noteq> [] \<Longrightarrow> rating (feedback_step mid st e) \<noteq> []"
  by (cases e)
     (auto simp: feedback_step_def onThumbsUpClick_def onThumbsDownClick_def
        onThumbsUpSettled_def onThumbsDownSettled_def thumbs_nonempty Let_def
        split: query_outcome.splits option.splits thumb.splits)

lemma run_keeps_rated: "rating st \<noteq> [] \<Longrightarrow> rating (feedback_run mid st es) \<noteq> []"
  unfolding feedback_run_def
  by (induction es arbitrary: st) (simp_all add: step_keeps_rated)

lemma clicks_noop:
  "rating st \<noteq> [] \<Longrightarrow> \<forall>e\<in>set es. e = ThumbsUpClick \<or> e = ThumbsDownClick \<Longrightarrow>
     feedback_run mid st es = st"
  unfolding feedback_run_def
  by (induction es arbitrary: st) (auto simp: feedback_step_def click_noop)

lemma initRating_keeps_rated: "rating st \<noteq> [] \<Longrightarrow> rating (initRating r st) \<noteq> []"
  by (simp add: initRating_def Let_def split: option.splits)

text \<open>
  C6: in every state whose rating is \<open>THUMBS_UP\<close> or \<open>THUMBS_DOWN\<close>, a click on either
  thumb changes nothing, and so does any sequence of clicks; and whatever happens
  afterwards (clicks or responses), the rating never is empty again, so it leaves the
  empty state at most once.
\<close>

theorem rating_set_clicks_are_noops:
  assumes "rating st = js ''THUMBS_UP'' \<or> rating st = js ''THUMBS_DOWN''"
  shows "onThumbsUpClick st = st \<and> onThumbsDownClick st = st
         \<and> ((\<forall>e\<in>set clicks. e = ThumbsUpClick \<or> e = ThumbsDownClick) \<longrightarrow>
               feedback_run mid st clicks = st)
         \<and> rating (feedback_run mid st es) \<noteq> []"
proof -
  from assms have ne: "rating st \<noteq> []" using thumbs_nonempty by auto
  show ?thesis
    using click_noop [OF ne] clicks_noop [OF ne] run_keeps_rated [OF ne] by blast
qed

theorem rating_set_clicks_are_noops_witness:
  "(rating rated_up = js ''THUMBS_UP'' \<or> rating rated_up = js ''THUMBS_DOWN'')
   \<and> feedback_run None rated_up [ThumbsDownClick, ThumbsUpClick] = rated_up
   \<and> rating (feedback_run None rated_up [ThumbsDownClick, QuerySettled 0 Rejected]) \<noteq> []"
proof -
  have h: "rating rated_up = js ''THUMBS_UP'' \<or> rating rated_up = js ''THUMBS_DOWN''"
    by (simp add: rated_up_def)
  have c: "\<forall>e\<in>set [ThumbsDownClick, ThumbsUpClick]. e = ThumbsUpClick \<or> e = ThumbsDownClick"
    by simp
  from rating_set_clicks_are_noops [OF h, of "[ThumbsDownClick, ThumbsUpClick]" None
         "[ThumbsDownClick, QuerySettled 0 Rejected]"] h c
  show ?thesis by blast
qed

text \<open>
  A response that was still awaited when the rating was set is not a click made
  afterwards: two clicks made from the empty rating both send their request, and the
  later response overwrites the rating that the earlier one set.
\<close>

lemma response_in_flight_changes_rating:
  "rating (feedback_run None unrated
             [ThumbsUpClick, ThumbsDownClick, QuerySettled 0 (Resolved (Some None))])
     = js ''THUMBS_UP''
   \<and> rating (feedback_run None unrated
             [ThumbsUpClick, ThumbsDownClick, QuerySettled 0 (Resolved (Some None)),
              QuerySettled 0 (Resolved (Some None))])
     = js ''THUMBS_DOWN''"
  by (simp add: feedback_run_def feedback_step_def unrated_def onThumbsUpClick_def
      onThumbsDownClick_def onThumbsUpSettled_def onThumbsDownSettled_def
      saveToLocalStorage_def or_else_def Let_def)

end
